theory Spec2Isabelle
  imports Main "HOL-Library.Sublist"
begin

section \<open>Strings\<close>

text \<open>
  A JavaScript string is a finite sequence of code units. The functions below
  only count code units and compare them for equality, so a string is modelled
  as a \<^typ>\<open>string\<close> whose characters stand for the code units.
\<close>

text \<open>\<^verbatim>\<open>s.endsWith(t)\<close>: the last \<open>length t\<close> code units of \<open>s\<close> are \<open>t\<close>.\<close>

definition endsWith :: "string \<Rightarrow> string \<Rightarrow> bool" where
  "endsWith s t = (length t \<le> length s \<and> drop (length s - length t) s = t)"

text \<open>
  \<^verbatim>\<open>s.substring(start, end)\<close>: both indices are clamped to \<open>0 .. length s\<close> and
  swapped when the first is the larger one.
\<close>

definition substring :: "string \<Rightarrow> int \<Rightarrow> int \<Rightarrow> string" where
  "substring s start fin =
     (let len = int (length s);
          a = min (max start 0) len;
          b = min (max fin 0) len;
          lo = min a b;
          hi = max a b
      in take (nat (hi - lo)) (drop (nat lo) s))"

text \<open>lodash \<^verbatim>\<open>isEmpty\<close> on a string: it has no code unit.\<close>

definition isEmpty :: "string \<Rightarrow> bool" where
  "isEmpty s = (length s = 0)"

section \<open>Semantic model utilities\<close>

text \<open>
  \<^verbatim>\<open>getParentFqn(fqn, name)\<close>; \<open>None\<close> is \<^verbatim>\<open>undefined\<close>.
\<close>

definition getParentFqn :: "string \<Rightarrow> string \<Rightarrow> string option" where
  "getParentFqn fqn name =
     (if \<not> isEmpty fqn \<and> endsWith fqn (''.'' @ name)
      then Some (substring fqn 0 (int (length fqn) - (int (length name) + 1)))
      else None)"

subsection \<open>JavaScript values and objects\<close>

text \<open>
  The collections of the semantic model are JavaScript objects used as maps from
  names to symbol nodes. An object has a prototype and own properties; the own
  properties are kept in creation order, each name at most once. Two prototypes
  occur: none (\<^verbatim>\<open>Object.create(null)\<close>) and \<^verbatim>\<open>Object.prototype\<close> (an object
  literal). A built-in member inherited from \<^verbatim>\<open>Object.prototype\<close> is the value
  \<open>JBuiltin name\<close>. Nodes that point back at their parents are read as their
  finite unfoldings.
\<close>

datatype jsproto = NullProto | ObjectProto

datatype jsval =
    JUndefined
  | JNull
  | JBool bool
  | JNum int
  | JStr string
  | JArr "jsval list"
  | JBuiltin string
  | JObj jsproto "(string \<times> jsval) list"

datatype jsobject = Object (proto: jsproto) (props: "(string \<times> jsval) list")

definition objectPrototypeKeys :: "string list" where
  "objectPrototypeKeys =
     [''constructor'', ''__defineGetter__'', ''__defineSetter__'', ''hasOwnProperty'',
      ''__lookupGetter__'', ''__lookupSetter__'', ''isPrototypeOf'',
      ''propertyIsEnumerable'', ''toString'', ''valueOf'', ''__proto__'',
      ''toLocaleString'']"

text \<open>\<^verbatim>\<open>object[key]\<close>: the own property, else the inherited one, else \<^verbatim>\<open>undefined\<close>.\<close>

definition getProp :: "jsobject \<Rightarrow> string \<Rightarrow> jsval" where
  "getProp object key =
     (case map_of (props object) key of
        Some v \<Rightarrow> v
      | None \<Rightarrow>
          (case proto object of
             NullProto \<Rightarrow> JUndefined
           | ObjectProto \<Rightarrow>
               if key \<in> set objectPrototypeKeys then JBuiltin key else JUndefined))"

text \<open>\<^verbatim>\<open>key in object\<close>: an own or an inherited property.\<close>

definition hasProperty :: "jsobject \<Rightarrow> string \<Rightarrow> bool" where
  "hasProperty object key =
     (map_of (props object) key \<noteq> None \<or>
      (proto object = ObjectProto \<and> key \<in> set objectPrototypeKeys))"

text \<open>
  \<^verbatim>\<open>object[key] = v\<close> on an object without prototype: the own property is
  overwritten in place, or created after the existing ones.
\<close>

definition setProp :: "jsobject \<Rightarrow> string \<Rightarrow> jsval \<Rightarrow> jsobject" where
  "setProp object key v =
     Object (proto object)
       (if key \<in> fst ` set (props object)
        then map (\<lambda>(k, w). if k = key then (k, v) else (k, w)) (props object)
        else props object @ [(key, v)])"

text \<open>
  An array index is the canonical decimal numeral of an integer below \<open>2^32 - 1 = 4294967295\<close>.
  \<^verbatim>\<open>for (key in object)\<close> enumerates the array indices in ascending order, then
  the other names in creation order; \<^verbatim>\<open>Object.prototype\<close> contributes no
  enumerable name.
\<close>

definition isDigit :: "char \<Rightarrow> bool" where
  "isDigit c = (c \<in> set ''0123456789'')"

definition digitValue :: "char \<Rightarrow> nat" where
  "digitValue c = (of_char c :: nat) - of_char CHR ''0''"

definition indexValue :: "string \<Rightarrow> nat" where
  "indexValue key = foldl (\<lambda>n c. 10 * n + digitValue c) 0 key"

definition isArrayIndex :: "string \<Rightarrow> bool" where
  "isArrayIndex key =
     (key \<noteq> [] \<and> list_all isDigit key \<and> (key = ''0'' \<or> hd key \<noteq> CHR ''0'') \<and>
      indexValue key < 4294967295)"

definition forInKeys :: "jsobject \<Rightarrow> string list" where
  "forInKeys object =
     (let keys = map fst (props object)
      in sort_key indexValue (filter isArrayIndex keys) @
         filter (\<lambda>k. \<not> isArrayIndex k) keys)"

subsection \<open>\<^verbatim>\<open>newMap\<close>, \<^verbatim>\<open>findValueInMaps\<close>, \<^verbatim>\<open>forEachSymbol\<close>\<close>

text \<open>\<^verbatim>\<open>Object.create(null)\<close>: no prototype and no own property.\<close>

definition newMap :: jsobject where
  "newMap = Object NullProto []"

text \<open>
  \<^verbatim>\<open>findValueInMaps(key, ...maps)\<close>. The test \<^verbatim>\<open>has\<close> is imported from lodash and
  enters as a parameter; \<open>lodashHas\<close> below is its behaviour. The result
  \<open>JUndefined\<close> is \<^verbatim>\<open>undefined\<close>.
\<close>

fun findValueInMaps :: "(jsobject \<Rightarrow> string \<Rightarrow> bool) \<Rightarrow> string \<Rightarrow> jsobject list \<Rightarrow> jsval" where
  "findValueInMaps has key [] = JUndefined"
| "findValueInMaps has key (mapElement # maps) =
     (if has mapElement key then getProp mapElement key
      else findValueInMaps has key maps)"

text \<open>
  lodash \<^verbatim>\<open>has(object, path)\<close> reads its second argument as a property path:
  a string that is not itself a property of the object and is written as a deep
  path, with dots or brackets (\<^verbatim>\<open>a.b\<close>, \<^verbatim>\<open>a[0].b\<close>), is cut into its segments,
  and the segments are followed through own properties
  (\<^verbatim>\<open>_.has({a: {b: 2}}, 'a.b')\<close> is true).
\<close>

text \<open>
  The key is itself the path when it is a plain property name
  (\<^verbatim>\<open>/^\w*$/\<close>), or is not a deep path, or is a property of the object. A deep
  path (\<^verbatim>\<open>reIsDeepProp\<close>) holds a dot, or a bracket pair around a text without
  brackets or around a quoted text.
\<close>

definition isWordChar :: "char \<Rightarrow> bool" where
  "isWordChar c =
     (c \<in> set ''abcdefghijklmnopqrstuvwxyzABCDEFGHIJKLMNOPQRSTUVWXYZ0123456789_'')"

definition reIsPlainProp :: "string \<Rightarrow> bool" where
  "reIsPlainProp s = list_all isWordChar s"

definition isQuote :: "char \<Rightarrow> bool" where
  "isQuote c = (c = CHR 0x22 \<or> c = CHR 0x27)"

definition isLineTerminator :: "char \<Rightarrow> bool" where
  "isLineTerminator c = (c = CHR 0x0A \<or> c = CHR 0x0D)"

text \<open>
  The body of a quoted text, after its opening quote \<open>q\<close>: characters other than
  the quote and the backslash, and pairs of a backslash and a character that
  is no line end, up to the quote followed by the closing bracket. The result
  is the text between the quotes and the number of characters read.
\<close>

fun quotedBody :: "char \<Rightarrow> string \<Rightarrow> (string \<times> nat) option" where
  "quotedBody q [] = None"
| "quotedBody q (c # cs) =
     (if c = q
      then (case cs of
              [] \<Rightarrow> None
            | d # ds \<Rightarrow> if d = CHR '']'' then Some ([], 2) else None)
      else if c = CHR 0x5C
      then (case cs of
              [] \<Rightarrow> None
            | d # ds \<Rightarrow>
                if isLineTerminator d then None
                else (case quotedBody q ds of
                        None \<Rightarrow> None
                      | Some (sub, n) \<Rightarrow> Some (c # d # sub, n + 2)))
      else (case quotedBody q cs of
              None \<Rightarrow> None
            | Some (sub, n) \<Rightarrow> Some (c # sub, n + 1)))"

definition quotedBracket :: "string \<Rightarrow> (string \<times> nat) option" where
  "quotedBracket s =
     (case s of
        [] \<Rightarrow> None
      | q # cs \<Rightarrow>
          if isQuote q
          then (case quotedBody q cs of
                  None \<Rightarrow> None
                | Some (sub, n) \<Rightarrow> Some (sub, n + 1))
          else None)"

fun plainBracket :: "string \<Rightarrow> bool" where
  "plainBracket [] = False"
| "plainBracket (c # cs) =
     (if c = CHR '']'' then True else if c = CHR ''['' then False else plainBracket cs)"

fun reIsDeepProp :: "string \<Rightarrow> bool" where
  "reIsDeepProp [] = False"
| "reIsDeepProp (c # cs) =
     (c = CHR ''.'' \<or>
      (c = CHR ''['' \<and> (plainBracket cs \<or> quotedBracket cs \<noteq> None)) \<or>
      reIsDeepProp cs)"

text \<open>
  A number between brackets, after the opening bracket: an optional minus sign,
  digits, an optional fraction, the closing bracket.
\<close>

definition numberBracket :: "string \<Rightarrow> (string \<times> nat) option" where
  "numberBracket s =
     (let sign = (if s \<noteq> [] \<and> hd s = CHR ''-'' then ''-'' else []);
          s1 = drop (length sign) s;
          whole = takeWhile isDigit s1;
          s2 = drop (length whole) s1;
          fraction = (if s2 \<noteq> [] \<and> hd s2 = CHR ''.'' then takeWhile isDigit (tl s2) else []);
          number = sign @ whole @ (if fraction = [] then [] else ''.'' @ fraction);
          s3 = drop (length number) s
      in if whole \<noteq> [] \<and> s3 \<noteq> [] \<and> hd s3 = CHR '']''
         then Some (number, length number + 1)
         else None)"

text \<open>
  \<^verbatim>\<open>subString.replace(reEscapeChar, '$1')\<close>: a backslash is dropped, two of them
  leave one.
\<close>

fun unescape :: "string \<Rightarrow> string" where
  "unescape [] = []"
| "unescape (c # cs) =
     (if c = CHR 0x5C
      then (case cs of
              [] \<Rightarrow> []
            | d # ds \<Rightarrow> if d = CHR 0x5C then d # unescape ds else unescape cs)
      else c # unescape cs)"

text \<open>
  The segments of a path (\<^verbatim>\<open>rePropName\<close>, matched again and again from left to
  right): a run of characters other than dot and brackets; a number or a quoted
  text between brackets; the empty key where a dot or \<^verbatim>\<open>[]\<close> is followed by
  a dot, by \<^verbatim>\<open>[]\<close> or by the end. A character at which nothing matches is
  passed over. A path that starts with a dot starts with the empty key.
\<close>

definition isSpecial :: "char \<Rightarrow> bool" where
  "isSpecial c = (c = CHR ''.'' \<or> c = CHR ''['' \<or> c = CHR '']'')"

definition separator :: "string \<Rightarrow> nat option" where
  "separator s =
     (if take 1 s = ''.'' then Some 1 else if take 2 s = ''[]'' then Some 2 else None)"

definition emptyKeyAhead :: "string \<Rightarrow> bool" where
  "emptyKeyAhead s =
     (case separator s of
        None \<Rightarrow> False
      | Some n \<Rightarrow> drop n s = [] \<or> separator (drop n s) \<noteq> None)"

fun rePropName :: "string \<Rightarrow> string list" where
  "rePropName [] = []"
| "rePropName (c # cs) =
     (if \<not> isSpecial c
      then (c # takeWhile (\<lambda>x. \<not> isSpecial x) cs) #
             rePropName (drop (length (takeWhile (\<lambda>x. \<not> isSpecial x) cs)) cs)
      else if c = CHR ''['' \<and> numberBracket cs \<noteq> None
      then (case numberBracket cs of
              None \<Rightarrow> []
            | Some (number, n) \<Rightarrow> number # rePropName (drop n cs))
      else if c = CHR ''['' \<and> quotedBracket cs \<noteq> None
      then (case quotedBracket cs of
              None \<Rightarrow> []
            | Some (sub, n) \<Rightarrow> unescape sub # rePropName (drop n cs))
      else if emptyKeyAhead (c # cs) then [] # rePropName cs
      else rePropName cs)"

definition stringToPath :: "string \<Rightarrow> string list" where
  "stringToPath s = (if take 1 s = ''.'' then [[]] else []) @ rePropName s"

definition isKey :: "string \<Rightarrow> jsobject \<Rightarrow> bool" where
  "isKey path object =
     (reIsPlainProp path \<or> \<not> reIsDeepProp path \<or> hasProperty object path)"

definition castPath :: "string \<Rightarrow> jsobject \<Rightarrow> string list" where
  "castPath path object = (if isKey path object then [path] else stringToPath path)"

text \<open>
  The own property \<open>key\<close> of a value, as \<^verbatim>\<open>hasOwnProperty\<close> and the read that
  follows it see it: a string and an array own their indices and \<^verbatim>\<open>length\<close>.
\<close>

fun ownProperty :: "jsval \<Rightarrow> string \<Rightarrow> jsval option" where
  "ownProperty (JObj p ps) key = map_of ps key"
| "ownProperty (JArr xs) key =
     (if key = ''length'' then Some (JNum (int (length xs)))
      else if isArrayIndex key \<and> indexValue key < length xs then Some (xs ! indexValue key)
      else None)"
| "ownProperty (JStr s) key =
     (if key = ''length'' then Some (JNum (int (length s)))
      else if isArrayIndex key \<and> indexValue key < length s then Some (JStr [s ! indexValue key])
      else None)"
| "ownProperty v key = None"

fun hasPath :: "jsval \<Rightarrow> string list \<Rightarrow> bool" where
  "hasPath object [] = False"
| "hasPath object [key] = (ownProperty object key \<noteq> None)"
| "hasPath object (key # rest) =
     (case ownProperty object key of
        None \<Rightarrow> False
      | Some v \<Rightarrow> hasPath v rest)"

definition lodashHas :: "jsobject \<Rightarrow> string \<Rightarrow> bool" where
  "lodashHas object path =
     hasPath (JObj (proto object) (props object)) (castPath path object)"

text \<open>
  The six collections of the semantic model; the version and the two flags are
  the fields of the model that the server reads.
\<close>

record UI5SemanticModel =
  version :: "string option"
  isFallback :: bool
  isIncorrectVersion :: bool
  classes :: jsobject
  enums :: jsobject
  namespaces :: jsobject
  interfaces :: jsobject
  typedefs :: jsobject
  "functions" :: jsobject

text \<open>
  The iteratee is a closure: it reads and changes a state of its own (\<open>'s\<close>) and
  returns \<^verbatim>\<open>true\<close>, \<^verbatim>\<open>false\<close> or nothing (\<open>None\<close>). It leaves the model as it is.
  Every invocation is recorded as a call: the two arguments and the value
  returned.
\<close>

type_synonym 's iteratee = "jsval \<Rightarrow> string \<Rightarrow> 's \<Rightarrow> bool option \<times> 's"

type_synonym call = "jsval \<times> string \<times> bool option"

text \<open>
  The inner loop over the keys of one collection. The first component of the
  result is false when the loop was left by \<^verbatim>\<open>break main\<close>.
\<close>

fun forInLoop :: "'s iteratee \<Rightarrow> jsobject \<Rightarrow> string list \<Rightarrow> 's \<Rightarrow> bool \<times> call list \<times> 's" where
  "forInLoop it mapElement [] s = (True, [], s)"
| "forInLoop it mapElement (key # keys) s =
     (let (keepIterating, s1) = it (getProp mapElement key) key s
      in if keepIterating = Some False
         then (False, [(getProp mapElement key, key, keepIterating)], s1)
         else (let (go, calls, s2) = forInLoop it mapElement keys s1
               in (go, (getProp mapElement key, key, keepIterating) # calls, s2)))"

fun mainLoop :: "'s iteratee \<Rightarrow> jsobject list \<Rightarrow> 's \<Rightarrow> call list \<times> 's" where
  "mainLoop it [] s = ([], s)"
| "mainLoop it (mapElement # typeMaps) s =
     (let (go, calls, s1) = forInLoop it mapElement (forInKeys mapElement) s
      in if go
         then (let (calls', s2) = mainLoop it typeMaps s1 in (calls @ calls', s2))
         else (calls, s1))"

definition forEachSymbol :: "UI5SemanticModel \<Rightarrow> 's iteratee \<Rightarrow> 's \<Rightarrow> call list \<times> 's" where
  "forEachSymbol model it s =
     mainLoop it
       [classes model, enums model, namespaces model, interfaces model,
        typedefs model, functions model] s"

text \<open>The symbols of one collection in the order of its enumeration.\<close>

definition symbolsOf :: "jsobject \<Rightarrow> (jsval \<times> string) list" where
  "symbolsOf mapElement = map (\<lambda>key. (getProp mapElement key, key)) (forInKeys mapElement)"

text \<open>Calling the iteratee on every symbol of a list, whatever it returns.\<close>

fun invokeAll :: "'s iteratee \<Rightarrow> (jsval \<times> string) list \<Rightarrow> 's \<Rightarrow> call list \<times> 's" where
  "invokeAll it [] s = ([], s)"
| "invokeAll it ((v, key) # rest) s =
     (let (r, s1) = it v key s;
          (calls, s2) = invokeAll it rest s1
      in ((v, key, r) # calls, s2))"

definition callArgs :: "call \<Rightarrow> jsval \<times> string" where
  "callArgs c = (fst c, fst (snd c))"

definition returned :: "call \<Rightarrow> bool option" where
  "returned c = snd (snd c)"

section \<open>The language server\<close>

text \<open>
  The handlers of the server call collaborators that are not part of it: the
  context package, the feature components, the settings store and the
  connection to the client. A handler is modelled by the value it returns and
  the sequence of actions it performs. The collaborators are the fields of an
  environment; an asynchronous one reads and changes the world outside the
  handler (\<open>'w\<close>), and its value is the value of the awaited promise: an
  awaited collaborator is taken to yield a value, and only the reactions to
  changed files are also followed when their promise is rejected. Calls to the
  logger are left out.
\<close>

subsection \<open>Data\<close>

record Identified =
  uri :: string

record TextDocument = Identified +
  content :: string

datatype FileChangeType = Created | Changed | Deleted

record FileEvent = Identified +
  type :: FileChangeType

record TextDocumentParams =
  textDocument :: Identified

record TextDocumentPositionParams = TextDocumentParams +
  position :: "nat \<times> nat"

text \<open>\<open>diagnostics\<close> is \<^verbatim>\<open>params.context.diagnostics\<close>.\<close>

record CodeActionParams = TextDocumentParams +
  diagnostics :: "jsval list"

record YamlDetails =
  framework :: string

text \<open>
  A context, as far as the server reads it. The value of \<^verbatim>\<open>getContext\<close> is a
  context (\<open>Inr\<close>) or a context error (\<open>Inl\<close>), and \<^verbatim>\<open>isContext\<close> tells them
  apart.
\<close>

record Context =
  ui5Model :: UI5SemanticModel
  yamlDetails :: YamlDetails

definition isContext :: "jsval + Context \<Rightarrow> bool" where
  "isContext c = (case c of Inl err \<Rightarrow> False | Inr ctx \<Rightarrow> True)"

text \<open>
  What a notification carries: the context error, or the fields \<^verbatim>\<open>url\<close>,
  \<^verbatim>\<open>framework\<close>, \<^verbatim>\<open>version\<close>, \<^verbatim>\<open>isFallback\<close> and \<^verbatim>\<open>isIncorrectVersion\<close>, in this
  order.
\<close>

datatype payload =
    ContextErrorPayload jsval
  | UI5ModelPayload string string "string option" bool bool

text \<open>
  The actions of a handler. A call of a collaborator is recorded with its
  arguments and, last, its value; \<open>AwaitInitialized\<close> is the wait for the two
  promises of the initialization.
\<close>

datatype action =
    GetContext string "string option" "jsval + Context"
  | GetCDNBaseUrl string "string option" string
  | SendNotification string payload
  | SendDiagnostics string "jsval list"
  | GetConfiguration string jsval
  | SetSettingsForDocument string jsval
  | GetSettingsForDocument string jsval
  | GetCompletionItems Context TextDocumentPositionParams TextDocument jsval "jsval list"
  | GetHoverResponse Context TextDocumentPositionParams TextDocument "jsval option"
  | GetXMLViewDiagnostics TextDocument Context "jsval list"
  | DiagnosticToCodeActionFix TextDocument "jsval list" Context "jsval list"
  | AwaitInitialized

record 'w env =
  fsPath :: "string \<Rightarrow> string"
  isXMLView :: "string \<Rightarrow> bool"
  getContext :: "string \<Rightarrow> string option \<Rightarrow> 'w \<Rightarrow> (jsval + Context) \<times> 'w"
  getCDNBaseUrl :: "string \<Rightarrow> string option \<Rightarrow> 'w \<Rightarrow> string \<times> 'w"
  hasSettingsForDocument :: "string \<Rightarrow> 'w \<Rightarrow> bool"
  getConfiguration :: "string \<Rightarrow> 'w \<Rightarrow> jsval \<times> 'w"
  setSettingsForDocument :: "string \<Rightarrow> jsval \<Rightarrow> 'w \<Rightarrow> 'w"
  getSettingsForDocument :: "string \<Rightarrow> 'w \<Rightarrow> jsval \<times> 'w"
  getCompletionItems ::
    "Context \<Rightarrow> TextDocumentPositionParams \<Rightarrow> TextDocument \<Rightarrow> jsval \<Rightarrow> jsval list"
  getHoverResponse ::
    "Context \<Rightarrow> TextDocumentPositionParams \<Rightarrow> TextDocument \<Rightarrow> jsval option"
  getXMLViewDiagnostics :: "TextDocument \<Rightarrow> Context \<Rightarrow> jsval list"
  diagnosticToCodeActionFix :: "TextDocument \<Rightarrow> jsval list \<Rightarrow> Context \<Rightarrow> jsval list"
  awaitInitialized :: "'w \<Rightarrow> 'w"

text \<open>
  The variables of the server module. \<open>documents\<close> are the open documents in
  the order of \<^verbatim>\<open>documents.all()\<close>; the two \<open>StateInitialized\<close> fields say
  whether the variable holds a promise.
\<close>

record ServerInitializationOptions =
  modelCachePath :: "string option"

record server =
  documents :: "TextDocument list"
  manifestStateInitialized :: bool
  ui5yamlStateInitialized :: bool
  initializationOptions :: "ServerInitializationOptions option"
  hasConfigurationCapability :: bool

text \<open>\<^verbatim>\<open>documents.get(uri)\<close>.\<close>

definition documentsGet :: "server \<Rightarrow> string \<Rightarrow> TextDocument option" where
  "documentsGet srv documentUri = find (\<lambda>d. uri d = documentUri) (documents srv)"

text \<open>\<^verbatim>\<open>initializationOptions?.modelCachePath\<close>.\<close>

definition modelCachePathOf :: "server \<Rightarrow> string option" where
  "modelCachePathOf srv =
     (case initializationOptions srv of
        None \<Rightarrow> None
      | Some options \<Rightarrow> modelCachePath options)"

subsection \<open>Feature requests\<close>

definition ensureDocumentSettingsUpdated ::
  "'w env \<Rightarrow> server \<Rightarrow> string \<Rightarrow> 'w \<Rightarrow> action list \<times> 'w" where
  "ensureDocumentSettingsUpdated env srv resource w =
     (if \<not> hasConfigurationCapability srv then ([], w)
      else if \<not> hasSettingsForDocument env resource w
      then (let (result, w1) = getConfiguration env resource w;
                w2 = setSettingsForDocument env resource result w1
            in ([GetConfiguration resource result, SetSettingsForDocument resource result], w2))
      else ([], w))"

definition onCompletion ::
  "'w env \<Rightarrow> server \<Rightarrow> TextDocumentPositionParams \<Rightarrow> 'w \<Rightarrow> jsval list \<times> action list \<times> 'w" where
  "onCompletion env srv textDocumentPosition w =
     (let documentUri = uri (textDocument textDocumentPosition)
      in case documentsGet srv documentUri of
           None \<Rightarrow> ([], [], w)
         | Some document \<Rightarrow>
             (let documentPath = fsPath env documentUri;
                  (context, w1) = getContext env documentPath (modelCachePathOf srv) w
              in case context of
                   Inl err \<Rightarrow>
                     ([],
                      [GetContext documentPath (modelCachePathOf srv) context,
                       SendNotification ''UI5LanguageAssistant/context-error''
                         (ContextErrorPayload err)],
                      w1)
                 | Inr ctx \<Rightarrow>
                     (let version = version (ui5Model ctx);
                          framework = framework (yamlDetails ctx);
                          isFallback = isFallback (ui5Model ctx);
                          isIncorrectVersion = isIncorrectVersion (ui5Model ctx);
                          (url, w2) = getCDNBaseUrl env framework version w1;
                          (updated, w3) = ensureDocumentSettingsUpdated env srv (uri document) w2;
                          (documentSettings, w4) = getSettingsForDocument env (uri document) w3;
                          completionItems =
                            getCompletionItems env ctx textDocumentPosition document documentSettings
                      in (completionItems,
                          [GetContext documentPath (modelCachePathOf srv) context,
                           GetCDNBaseUrl framework version url,
                           SendNotification ''UI5LanguageAssistant/ui5Model''
                             (UI5ModelPayload url framework version isFallback isIncorrectVersion)] @
                          updated @
                          [GetSettingsForDocument (uri document) documentSettings,
                           GetCompletionItems ctx textDocumentPosition document documentSettings
                             completionItems],
                          w4))))"

definition onHover ::
  "'w env \<Rightarrow> server \<Rightarrow> TextDocumentPositionParams \<Rightarrow> 'w \<Rightarrow> jsval option \<times> action list \<times> 'w" where
  "onHover env srv textDocumentPosition w =
     (let documentUri = uri (textDocument textDocumentPosition)
      in case documentsGet srv documentUri of
           None \<Rightarrow> (None, [], w)
         | Some document \<Rightarrow>
             (let documentPath = fsPath env documentUri;
                  (context, w1) = getContext env documentPath (modelCachePathOf srv) w
              in case context of
                   Inl err \<Rightarrow>
                     (None,
                      [GetContext documentPath (modelCachePathOf srv) context,
                       SendNotification ''UI5LanguageAssistant/context-error''
                         (ContextErrorPayload err)],
                      w1)
                 | Inr ctx \<Rightarrow>
                     (let version = version (ui5Model ctx);
                          framework = framework (yamlDetails ctx);
                          isFallback = isFallback (ui5Model ctx);
                          isIncorrectVersion = isIncorrectVersion (ui5Model ctx);
                          (url, w2) = getCDNBaseUrl env framework version w1;
                          hoverResponse = getHoverResponse env ctx textDocumentPosition document
                      in (hoverResponse,
                          [GetContext documentPath (modelCachePathOf srv) context,
                           GetCDNBaseUrl framework version url,
                           SendNotification ''UI5LanguageAssistant/ui5Model''
                             (UI5ModelPayload url framework version isFallback isIncorrectVersion),
                           GetHoverResponse ctx textDocumentPosition document hoverResponse],
                          w2))))"

subsection \<open>Diagnostics\<close>

definition supportedDocs :: "string list" where
  "supportedDocs = [''manifest.json'', ''ui5.yaml'', ''.cds'', ''.xml'', ''package.json'']"

text \<open>
  The test of \<^verbatim>\<open>changes.find\<close> in \<^verbatim>\<open>validateOpenDocuments\<close>: the value of the
  conjunction is the suffix found, and it counts as true when it is a string
  that is not empty.
\<close>

definition supported :: "'w env \<Rightarrow> FileEvent \<Rightarrow> bool" where
  "supported env change =
     (\<not> isXMLView env (uri change) \<and>
      (case find (\<lambda>doc. endsWith (uri change) doc) supportedDocs of
         None \<Rightarrow> False
       | Some doc \<Rightarrow> doc \<noteq> []))"

text \<open>The loop over \<^verbatim>\<open>allDocuments\<close>; the \<^verbatim>\<open>return\<close> in it ends the pass.\<close>

fun validateLoop ::
  "'w env \<Rightarrow> string option \<Rightarrow> TextDocument list \<Rightarrow> 'w \<Rightarrow> action list \<times> 'w" where
  "validateLoop env cachePath [] w = ([], w)"
| "validateLoop env cachePath (document # allDocuments) w =
     (let documentPath = fsPath env (uri document);
          (context, w1) = getContext env documentPath cachePath w
      in case context of
           Inl err \<Rightarrow>
             ([GetContext documentPath cachePath context,
               SendNotification ''UI5LanguageAssistant/context-error'' (ContextErrorPayload err)],
              w1)
         | Inr ctx \<Rightarrow>
             (let diagnostics = getXMLViewDiagnostics env document ctx;
                  (later, w2) = validateLoop env cachePath allDocuments w1
              in ([GetContext documentPath cachePath context,
                   GetXMLViewDiagnostics document ctx diagnostics,
                   SendDiagnostics (uri document) diagnostics] @ later,
                  w2)))"

definition validateOpenDocuments ::
  "'w env \<Rightarrow> server \<Rightarrow> FileEvent list \<Rightarrow> 'w \<Rightarrow> action list \<times> 'w" where
  "validateOpenDocuments env srv changes w =
     (case find (supported env) changes of
        None \<Rightarrow> ([], w)
      | Some found \<Rightarrow> validateLoop env (modelCachePathOf srv) (documents srv) w)"

definition onDidChangeContent ::
  "'w env \<Rightarrow> server \<Rightarrow> TextDocument \<Rightarrow> 'w \<Rightarrow> action list \<times> 'w" where
  "onDidChangeContent env srv changed w =
     (if \<not> manifestStateInitialized srv \<or> \<not> ui5yamlStateInitialized srv \<or>
         \<not> isXMLView env (uri changed)
      then ([], w)
      else
        (let w0 = awaitInitialized env w;
             documentUri = uri changed
         in case documentsGet srv documentUri of
              None \<Rightarrow> ([AwaitInitialized], w0)
            | Some document \<Rightarrow>
                (let documentPath = fsPath env documentUri;
                     (context, w1) = getContext env documentPath (modelCachePathOf srv) w0
                 in case context of
                      Inl err \<Rightarrow>
                        ([AwaitInitialized,
                          GetContext documentPath (modelCachePathOf srv) context,
                          SendNotification ''UI5LanguageAssistant/context-error''
                            (ContextErrorPayload err)],
                         w1)
                    | Inr ctx \<Rightarrow>
                        (let version = version (ui5Model ctx);
                             framework = framework (yamlDetails ctx);
                             isFallback = isFallback (ui5Model ctx);
                             isIncorrectVersion = isIncorrectVersion (ui5Model ctx);
                             (url, w2) = getCDNBaseUrl env framework version w1;
                             diagnostics = getXMLViewDiagnostics env document ctx
                         in ([AwaitInitialized,
                              GetContext documentPath (modelCachePathOf srv) context,
                              GetCDNBaseUrl framework version url,
                              SendNotification ''UI5LanguageAssistant/ui5Model''
                                (UI5ModelPayload url framework version isFallback
                                   isIncorrectVersion),
                              GetXMLViewDiagnostics document ctx diagnostics,
                              SendDiagnostics (uri changed) diagnostics],
                             w2)))))"

subsection \<open>Code actions\<close>

definition onCodeAction ::
  "'w env \<Rightarrow> server \<Rightarrow> CodeActionParams \<Rightarrow> 'w \<Rightarrow> jsval list option \<times> action list \<times> 'w" where
  "onCodeAction env srv params w =
     (let docUri = uri (textDocument params)
      in case documentsGet srv docUri of
           None \<Rightarrow> (None, [], w)
         | Some textDoc \<Rightarrow>
             (let documentPath = fsPath env docUri;
                  (context, w1) = getContext env documentPath (modelCachePathOf srv) w
              in case context of
                   Inl err \<Rightarrow>
                     (None,
                      [GetContext documentPath (modelCachePathOf srv) context,
                       SendNotification ''UI5LanguageAssistant/context-error''
                         (ContextErrorPayload err)],
                      w1)
                 | Inr ctx \<Rightarrow>
                     (let version = version (ui5Model ctx);
                          framework = framework (yamlDetails ctx);
                          isFallback = isFallback (ui5Model ctx);
                          isIncorrectVersion = isIncorrectVersion (ui5Model ctx);
                          (url, w2) = getCDNBaseUrl env framework version w1;
                          codeActions =
                            diagnosticToCodeActionFix env textDoc (diagnostics params) ctx
                      in (Some codeActions,
                          [GetContext documentPath (modelCachePathOf srv) context,
                           GetCDNBaseUrl framework version url,
                           SendNotification ''UI5LanguageAssistant/ui5Model''
                             (UI5ModelPayload url framework version isFallback isIncorrectVersion),
                           DiagnosticToCodeActionFix textDoc (diagnostics params) ctx codeActions],
                          w2))))"

subsection \<open>Watched files\<close>

text \<open>
  The reactions of the context package to a changed file are asynchronous
  functions. A call starts the reaction and yields a promise; the promise is
  settled later, resolved or rejected.
\<close>

datatype reaction =
    ReactOnManifestChange string FileChangeType
  | ReactOnUI5YamlChange string FileChangeType
  | ReactOnXmlFileChange string FileChangeType
  | ReactOnPackageJson string FileChangeType
  | ReactOnCdsFileChange "FileEvent list"

datatype outcome = Resolved | Rejected

text \<open>
  The callback given to \<^verbatim>\<open>forEach\<close> is an asynchronous function. Called with a
  change, it runs up to its first \<^verbatim>\<open>await\<close>: it starts one reaction, or pushes the
  change to \<^verbatim>\<open>cdsFileEvents\<close>, or does nothing. It then returns a promise, and
  nothing of the callback remains to run once the reaction has settled. The
  state of the loop is the list of the reactions started so far and
  \<^verbatim>\<open>cdsFileEvents\<close>.
\<close>

definition callback ::
  "FileEvent \<Rightarrow> reaction list \<times> FileEvent list \<Rightarrow> reaction list \<times> FileEvent list" where
  "callback change acc =
     (let (calls, cdsFileEvents) = acc;
          u = uri change
      in if endsWith u ''manifest.json''
         then (calls @ [ReactOnManifestChange u (type change)], cdsFileEvents)
         else if endsWith u ''ui5.yaml''
         then (calls @ [ReactOnUI5YamlChange u (type change)], cdsFileEvents)
         else if endsWith u ''.cds''
         then (calls, cdsFileEvents @ [change])
         else if endsWith u ''.xml''
         then (calls @ [ReactOnXmlFileChange u (type change)], cdsFileEvents)
         else if endsWith u ''package.json''
         then (calls @ [ReactOnPackageJson u (type change)], cdsFileEvents)
         else (calls, cdsFileEvents))"

text \<open>
  lodash \<^verbatim>\<open>forEach\<close> calls the callback on the elements of the array in order and
  drops what the callback returns, unless it is \<^verbatim>\<open>false\<close>; a promise never is.
\<close>

definition forEach :: "'a list \<Rightarrow> ('a \<Rightarrow> 'b \<Rightarrow> 'b) \<Rightarrow> 'b \<Rightarrow> 'b" where
  "forEach collection iteratee acc = foldl (\<lambda>a x. iteratee x a) acc collection"

text \<open>
  The handler up to its first \<^verbatim>\<open>await\<close>, which JavaScript runs without
  interruption: the loop over the changes, then the call of
  \<^verbatim>\<open>reactOnCdsFileChange\<close>. The result lists the reactions started, in order; the
  last one is awaited by the handler.
\<close>

definition firstTurn :: "FileEvent list \<Rightarrow> reaction list" where
  "firstTurn changes =
     (let (calls, cdsFileEvents) = forEach changes callback ([], [])
      in calls @ [ReactOnCdsFileChange cdsFileEvents])"

text \<open>
  What happens while the handler runs: reaction number \<open>i\<close> is started, it is
  settled, the handler calls \<^verbatim>\<open>validateOpenDocuments\<close> with the changes, or the
  handler ends with the rejection of the promise it awaited.
\<close>

datatype event =
    Started nat reaction
  | Settled nat outcome
  | ValidateOpenDocuments "FileEvent list"
  | HandlerRejected

record config =
  reactions :: "reaction list"
  settled :: "outcome option list"
  finished :: bool
  trace :: "event list"

definition initial :: "FileEvent list \<Rightarrow> config" where
  "initial changes =
     \<lparr>reactions = firstTurn changes,
      settled = replicate (length (firstTurn changes)) None,
      finished = False,
      trace = map (\<lambda>(i, r). Started i r) (enumerate 0 (firstTurn changes))\<rparr>"

text \<open>
  After the first turn the event loop decides what comes next: a pending
  reaction settles, or the handler is resumed. The handler can be resumed once
  the reaction it awaits has settled: resolved, it calls
  \<^verbatim>\<open>validateOpenDocuments\<close>; rejected, the handler ends. A decision that cannot
  be taken leaves the configuration as it is.
\<close>

datatype decision = Settle nat outcome | Resume

definition awaited :: "config \<Rightarrow> nat" where
  "awaited c = length (reactions c) - 1"

fun step :: "FileEvent list \<Rightarrow> config \<Rightarrow> decision \<Rightarrow> config" where
  "step changes c (Settle i out) =
     (if i < length (settled c) \<and> settled c ! i = None
      then c\<lparr>settled := (settled c)[i := Some out], trace := trace c @ [Settled i out]\<rparr>
      else c)"
| "step changes c Resume =
     (if finished c then c
      else (case settled c ! awaited c of
              None \<Rightarrow> c
            | Some Resolved \<Rightarrow>
                c\<lparr>finished := True, trace := trace c @ [ValidateOpenDocuments changes]\<rparr>
            | Some Rejected \<Rightarrow>
                c\<lparr>finished := True, trace := trace c @ [HandlerRejected]\<rparr>))"

definition onDidChangeWatchedFiles :: "FileEvent list \<Rightarrow> decision list \<Rightarrow> config" where
  "onDidChangeWatchedFiles changes schedule = foldl (step changes) (initial changes) schedule"

section \<open>Observations on traces\<close>

text \<open>The lists passed to \<^verbatim>\<open>reactOnCdsFileChange\<close>, one for each call.\<close>

fun cdsCalls :: "event list \<Rightarrow> FileEvent list list" where
  "cdsCalls [] = []"
| "cdsCalls (Started i (ReactOnCdsFileChange fileEvents) # es) = fileEvents # cdsCalls es"
| "cdsCalls (e # es) = cdsCalls es"

text \<open>The notifications sent, the documents whose diagnostics were published
  and computed, and the paths whose context was requested.\<close>

fun notifications :: "action list \<Rightarrow> (string \<times> payload) list" where
  "notifications [] = []"
| "notifications (SendNotification name p # as) = (name, p) # notifications as"
| "notifications (a # as) = notifications as"

fun published :: "action list \<Rightarrow> string list" where
  "published [] = []"
| "published (SendDiagnostics documentUri ds # as) = documentUri # published as"
| "published (a # as) = published as"

fun diagnosed :: "action list \<Rightarrow> TextDocument list" where
  "diagnosed [] = []"
| "diagnosed (GetXMLViewDiagnostics document ctx ds # as) = document # diagnosed as"
| "diagnosed (a # as) = diagnosed as"

fun requested :: "action list \<Rightarrow> string list" where
  "requested [] = []"
| "requested (GetContext path cachePath c # as) = path # requested as"
| "requested (a # as) = requested as"

section \<open>Auxiliary definitions\<close>

text \<open>
  The two nested loops of \<^verbatim>\<open>forEachSymbol\<close> seen as one loop over a list of
  symbols; used in the proofs only.
\<close>

fun visit :: "'s iteratee \<Rightarrow> (jsval \<times> string) list \<Rightarrow> 's \<Rightarrow> bool \<times> call list \<times> 's" where
  "visit it [] s = (True, [], s)"
| "visit it ((v, key) # rest) s =
     (let (keepIterating, s1) = it v key s
      in if keepIterating = Some False
         then (False, [(v, key, keepIterating)], s1)
         else (let (go, calls, s2) = visit it rest s1
               in (go, (v, key, keepIterating) # calls, s2)))"

text \<open>Assigning a list of entries to a map, one after the other.\<close>

definition assignAll :: "jsobject \<Rightarrow> (string \<times> jsval) list \<Rightarrow> jsobject" where
  "assignAll object kvs = foldl (\<lambda>m (key, v). setProp m key v) object kvs"

section \<open>Example inputs\<close>

text \<open>A model without symbols, and a model with four.\<close>

definition emptyModel :: UI5SemanticModel where
  "emptyModel =
     \<lparr>version = None, isFallback = False, isIncorrectVersion = False,
      classes = newMap, enums = newMap, namespaces = newMap, interfaces = newMap,
      typedefs = newMap, functions = newMap\<rparr>"

definition exampleModel :: UI5SemanticModel where
  "exampleModel =
     \<lparr>version = Some ''1.71.1'', isFallback = False, isIncorrectVersion = False,
      classes = Object NullProto [(''sap.m.Button'', JStr ''Button''), (''sap.m.Input'', JStr ''Input'')],
      enums = Object NullProto [(''sap.m.ButtonType'', JStr ''ButtonType'')],
      namespaces = Object NullProto [(''sap'', JObj ObjectProto [(''name'', JStr ''sap'')])],
      interfaces = newMap, typedefs = newMap, functions = newMap\<rparr>"

text \<open>An iteratee that counts its calls and stops at \<^verbatim>\<open>sap.m.Input\<close>.\<close>

definition stopAtInput :: "nat iteratee" where
  "stopAtInput v key n = (if key = ''sap.m.Input'' then Some False else None, Suc n)"

text \<open>
  Two collections: the first binds \<^verbatim>\<open>sap\<close> to a node with a field \<^verbatim>\<open>name\<close>, the
  second binds \<^verbatim>\<open>sap.name\<close> to a node.
\<close>

definition namespacesExample :: jsobject where
  "namespacesExample =
     Object NullProto
       [(''sap'', JObj ObjectProto [(''kind'', JStr ''UI5Namespace''), (''name'', JStr ''sap'')])]"

definition functionsExample :: jsobject where
  "functionsExample =
     Object NullProto
       [(''sap.name'', JObj ObjectProto [(''kind'', JStr ''UI5Function''), (''name'', JStr ''name'')])]"

text \<open>
  An environment in which every path has a context but the one of
  \<^verbatim>\<open>Broken.view.xml\<close>, and the world counts the requests of a context. Its
  \<^verbatim>\<open>isXMLView\<close> holds of the paths that end in \<^verbatim>\<open>view.xml\<close> or
  \<^verbatim>\<open>fragment.xml\<close>, the files of XML views and fragments. The server has three
  documents open.
\<close>

definition exampleContext :: Context where
  "exampleContext = \<lparr>ui5Model = exampleModel, yamlDetails = \<lparr>framework = ''SAPUI5''\<rparr>\<rparr>"

definition exampleEnv :: "nat env" where
  "exampleEnv =
     \<lparr>fsPath = drop 7,
      isXMLView = (\<lambda>u. endsWith u ''view.xml'' \<or> endsWith u ''fragment.xml''),
      getContext = (\<lambda>path cachePath w.
        (if endsWith path ''Broken.view.xml'' then Inl (JStr ''no project root'')
         else Inr exampleContext, Suc w)),
      getCDNBaseUrl = (\<lambda>fw ver w. (''https://ui5.sap.com/'', w)),
      hasSettingsForDocument = (\<lambda>resource w. True),
      getConfiguration = (\<lambda>resource w. (JNull, w)),
      setSettingsForDocument = (\<lambda>resource v w. w),
      getSettingsForDocument = (\<lambda>resource w. (JNull, w)),
      getCompletionItems = (\<lambda>ctx p document settings. [JStr ''Button'']),
      getHoverResponse = (\<lambda>ctx p document. Some (JStr ''sap.m.Button'')),
      getXMLViewDiagnostics = (\<lambda>document ctx. []),
      diagnosticToCodeActionFix = (\<lambda>document ds ctx. []),
      awaitInitialized = (\<lambda>w. w)\<rparr>"

definition mainView :: TextDocument where
  "mainView = \<lparr>uri = ''file:///app/Main.view.xml'', content = ''<mvc:View/>''\<rparr>"

definition brokenView :: TextDocument where
  "brokenView = \<lparr>uri = ''file:///tmp/Broken.view.xml'', content = ''<mvc:View/>''\<rparr>"

definition detailView :: TextDocument where
  "detailView = \<lparr>uri = ''file:///app/Detail.view.xml'', content = ''<mvc:View/>''\<rparr>"

definition exampleServer :: server where
  "exampleServer =
     \<lparr>documents = [mainView, brokenView, detailView],
      manifestStateInitialized = True,
      ui5yamlStateInitialized = True,
      initializationOptions = None,
      hasConfigurationCapability = False\<rparr>"

text \<open>Requests and changed files.\<close>

definition atMain :: TextDocumentPositionParams where
  "atMain = \<lparr>textDocument = \<lparr>uri = ''file:///app/Main.view.xml''\<rparr>, position = (0, 0)\<rparr>"

definition atBroken :: TextDocumentPositionParams where
  "atBroken = \<lparr>textDocument = \<lparr>uri = ''file:///tmp/Broken.view.xml''\<rparr>, position = (0, 0)\<rparr>"

definition manifestChange :: FileEvent where
  "manifestChange = \<lparr>uri = ''file:///app/manifest.json'', type = Changed\<rparr>"


definition cdsChange :: FileEvent where
  "cdsChange = \<lparr>uri = ''file:///app/srv/service.cds'', type = Changed\<rparr>"

definition schemaChange :: FileEvent where
  "schemaChange = \<lparr>uri = ''file:///app/db/schema.cds'', type = Created\<rparr>"

definition fixMain :: CodeActionParams where
  "fixMain = \<lparr>textDocument = \<lparr>uri = ''file:///app/Main.view.xml''\<rparr>, diagnostics = [JStr ''missing id'']\<rparr>"

section \<open>Properties of the semantic model utilities\<close>

lemma endsWith_suffix: "endsWith s t = suffix t s"
proof
  assume "endsWith s t"
  then have "drop (length s - length t) s = t"
    by (simp add: endsWith_def)
  then have "s = take (length s - length t) s @ t"
    by (metis append_take_drop_id)
  then show "suffix t s"
    by (rule suffixI)
next
  assume "suffix t s"
  then obtain p where "s = p @ t"
    by (auto simp: suffix_def)
  then show "endsWith s t"
    by (simp add: endsWith_def)
qed

lemma substring_prefix:
  "substring (p @ t) 0 (int (length (p @ t)) - int (length t)) = p"
  by (simp add: substring_def Let_def)

text \<open>
  Claim C1. When \<open>fqn\<close> is not empty and ends with \<open>"." + name\<close>, the result of
  \<open>getParentFqn fqn name\<close> is \<open>fqn\<close> without that trailing \<open>"." + name\<close>: the
  unique \<open>parent\<close> with \<open>fqn = parent @ "." @ name\<close>. For every other pair of
  arguments, the empty \<open>fqn\<close> among them, the result is \<open>None\<close>.
\<close>

theorem getParentFqn_strips_suffix:
  "(fqn \<noteq> [] \<and> suffix (''.'' @ name) fqn \<longrightarrow>
      (\<exists>parent. fqn = parent @ ''.'' @ name \<and> getParentFqn fqn name = Some parent)) \<and>
   (\<not> (fqn \<noteq> [] \<and> suffix (''.'' @ name) fqn) \<longrightarrow> getParentFqn fqn name = None)"
proof (intro conjI impI)
  assume ends: "fqn \<noteq> [] \<and> suffix (''.'' @ name) fqn"
  then obtain parent where fqn: "fqn = parent @ ''.'' @ name"
    by (auto simp: suffix_def)
  have "substring (parent @ (''.'' @ name)) 0
          (int (length (parent @ (''.'' @ name))) - int (length (''.'' @ name))) = parent"
    by (rule substring_prefix)
  moreover have "\<not> isEmpty fqn \<and> endsWith fqn (''.'' @ name)"
    using ends by (simp add: isEmpty_def endsWith_suffix)
  ultimately have "getParentFqn fqn name = Some parent"
    using fqn by (simp add: getParentFqn_def algebra_simps)
  with fqn show "\<exists>parent. fqn = parent @ ''.'' @ name \<and> getParentFqn fqn name = Some parent"
    by blast
next
  assume "\<not> (fqn \<noteq> [] \<and> suffix (''.'' @ name) fqn)"
  then show "getParentFqn fqn name = None"
    by (auto simp: getParentFqn_def isEmpty_def endsWith_suffix)
qed

theorem getParentFqn_strips_suffix_witness:
  "getParentFqn ''a.b.c'' ''c'' = Some ''a.b'' \<and>
   getParentFqn '''' ''c'' = None \<and>
   getParentFqn ''abc'' ''c'' = None"
proof -
  have "\<exists>parent. ''a.b.c'' = parent @ ''.'' @ ''c'' \<and> getParentFqn ''a.b.c'' ''c'' = Some parent"
    using getParentFqn_strips_suffix [of "''a.b.c''" "''c''"]
    by (simp add: suffix_def)
  then have "getParentFqn ''a.b.c'' ''c'' = Some ''a.b''"
    by (auto simp: append_eq_Cons_conv Cons_eq_append_conv)
  moreover have "getParentFqn '''' ''c'' = None"
    using getParentFqn_strips_suffix [of "''''" "''c''"] by simp
  moreover have "getParentFqn ''abc'' ''c'' = None"
    using getParentFqn_strips_suffix [of "''abc''" "''c''"]
    by (simp add: suffix_def append_eq_Cons_conv Cons_eq_append_conv)
  ultimately show ?thesis by simp
qed

lemma callArgs_triple [simp]: "callArgs (v, key, r) = (v, key)"
  by (simp add: callArgs_def)

lemma returned_triple [simp]: "returned (v, key, r) = r"
  by (simp add: returned_def)

lemma forInLoop_visit:
  "forInLoop it m keys s = visit it (map (\<lambda>key. (getProp m key, key)) keys) s"
  by (induction keys arbitrary: s) (simp_all split: prod.splits)

lemma visit_append:
  "visit it (xs @ ys) s =
     (case visit it xs s of
        (go, calls, s1) \<Rightarrow>
          if go then (case visit it ys s1 of (go', calls', s2) \<Rightarrow> (go', calls @ calls', s2))
          else (False, calls, s1))"
proof (induction xs arbitrary: s)
  case Nil
  then show ?case by (simp split: prod.splits)
next
  case (Cons x xs)
  obtain v key where x: "x = (v, key)" by (cases x)
  show ?case
    by (simp add: x Cons.IH split: prod.splits)
qed

lemma mainLoop_visit:
  "mainLoop it maps s =
     (case visit it (concat (map symbolsOf maps)) s of (go, calls, s') \<Rightarrow> (calls, s'))"
proof (induction maps arbitrary: s)
  case Nil
  then show ?case by simp
next
  case (Cons m maps)
  show ?case
    by (simp add: forInLoop_visit symbolsOf_def [symmetric] visit_append Cons.IH
          split: prod.splits)
qed

lemma visit_props:
  "visit it xs s = (go, calls, s') \<Longrightarrow>
     prefix (map callArgs calls) xs \<and>
     invokeAll it (map callArgs calls) s = (calls, s') \<and>
     (\<forall>c\<in>set (butlast calls). returned c \<noteq> Some False) \<and>
     (go \<longleftrightarrow> (calls = [] \<or> returned (last calls) \<noteq> Some False)) \<and>
     (go \<longrightarrow> map callArgs calls = xs)"
proof (induction xs arbitrary: s go calls s')
  case Nil
  then show ?case by simp
next
  case (Cons x xs)
  obtain v key where x: "x = (v, key)" by (cases x)
  obtain r s1 where r: "it v key s = (r, s1)" by (cases "it v key s")
  show ?case
  proof (cases "r = Some False")
    case True
    with Cons.prems x r show ?thesis
      by auto
  next
    case False
    obtain go2 calls2 s2 where v2: "visit it xs s1 = (go2, calls2, s2)"
      by (cases "visit it xs s1") auto
    from Cons.IH [OF v2] have ih:
      "prefix (map callArgs calls2) xs"
      "invokeAll it (map callArgs calls2) s1 = (calls2, s2)"
      "\<forall>c\<in>set (butlast calls2). returned c \<noteq> Some False"
      "go2 \<longleftrightarrow> (calls2 = [] \<or> returned (last calls2) \<noteq> Some False)"
      "go2 \<longrightarrow> map callArgs calls2 = xs"
      by blast+
    from Cons.prems x r False v2
    have res: "go = go2" "calls = (v, key, r) # calls2" "s' = s2"
      by auto
    show ?thesis
      unfolding res x using ih r False
      by auto
  qed
qed

lemma forInKeys_set: "set (forInKeys m) = fst ` set (props m)"
  by (auto simp: forInKeys_def Let_def)

lemma forInKeys_distinct:
  assumes "distinct (map fst (props m))"
  shows "distinct (forInKeys m)"
proof -
  let ?keys = "map fst (props m)"
  have "distinct (filter isArrayIndex ?keys)" "distinct (filter (\<lambda>k. \<not> isArrayIndex k) ?keys)"
    using assms by simp_all
  then show ?thesis
    by (auto simp: forInKeys_def Let_def)
qed

lemma getProp_own:
  "distinct (map fst (props m)) \<Longrightarrow> (k, v) \<in> set (props m) \<Longrightarrow> getProp m k = v"
  by (simp add: getProp_def)

lemma symbolsOf_enumerates:
  assumes "distinct (map fst (props m))"
  shows "distinct (map snd (symbolsOf m)) \<and> set (symbolsOf m) = (\<lambda>(k, v). (v, k)) ` set (props m)"
proof -
  have keys: "map snd (symbolsOf m) = forInKeys m"
    by (simp add: symbolsOf_def comp_def)
  have "set (symbolsOf m) = (\<lambda>(k, v). (v, k)) ` set (props m)"
  proof (intro equalityI subsetI)
    fix x assume "x \<in> set (symbolsOf m)"
    then obtain k where k: "k \<in> set (forInKeys m)" "x = (getProp m k, k)"
      by (auto simp: symbolsOf_def)
    then obtain v where v: "(k, v) \<in> set (props m)"
      by (auto simp: forInKeys_set)
    with assms have "getProp m k = v" by (rule getProp_own)
    with k v show "x \<in> (\<lambda>(k, v). (v, k)) ` set (props m)"
      by force
  next
    fix x assume "x \<in> (\<lambda>(k, v). (v, k)) ` set (props m)"
    then obtain k v where kv: "(k, v) \<in> set (props m)" "x = (v, k)"
      by auto
    with assms have "getProp m k = v" by (simp add: getProp_own)
    moreover have "k \<in> set (forInKeys m)"
      using kv by (force simp: forInKeys_set)
    ultimately show "x \<in> set (symbolsOf m)"
      using kv by (auto simp: symbolsOf_def)
  qed
  with keys assms show ?thesis
    by (simp add: forInKeys_distinct)
qed

text \<open>
  Claim C2. The symbols \<open>forEachSymbol\<close> passes to the iteratee are an initial
  part of the symbols of the six collections, taken in the order classes, enums,
  namespaces, interfaces, typedefs, functions, each collection in the order of
  its enumeration; the calls recorded are those of calling the iteratee on these
  symbols one after the other. No call before the last one returned \<^verbatim>\<open>false\<close>:
  once the iteratee returns \<^verbatim>\<open>false\<close>, nothing more is visited, in this collection
  or a later one. When the last call did not return \<^verbatim>\<open>false\<close>, every symbol of
  the six collections was visited. A collection whose keys are distinct lists
  each of its entries once.
\<close>

theorem forEachSymbol_traversal:
  assumes "forEachSymbol model it s = (calls, s')"
  shows
    "prefix (map callArgs calls)
       (symbolsOf (classes model) @ symbolsOf (enums model) @ symbolsOf (namespaces model) @
        symbolsOf (interfaces model) @ symbolsOf (typedefs model) @ symbolsOf (functions model)) \<and>
     invokeAll it (map callArgs calls) s = (calls, s') \<and>
     (\<forall>c\<in>set (butlast calls). returned c \<noteq> Some False) \<and>
     ((calls = [] \<or> returned (last calls) \<noteq> Some False) \<longrightarrow>
        map callArgs calls =
          symbolsOf (classes model) @ symbolsOf (enums model) @ symbolsOf (namespaces model) @
          symbolsOf (interfaces model) @ symbolsOf (typedefs model) @ symbolsOf (functions model)) \<and>
     (\<forall>mapElement. distinct (map fst (props mapElement)) \<longrightarrow>
        distinct (map snd (symbolsOf mapElement)) \<and>
        set (symbolsOf mapElement) = (\<lambda>(key, v). (v, key)) ` set (props mapElement))"
proof -
  let ?all = "concat (map symbolsOf
      [classes model, enums model, namespaces model, interfaces model, typedefs model,
       functions model])"
  obtain go where v: "visit it ?all s = (go, calls, s')"
    using assms unfolding forEachSymbol_def mainLoop_visit
    by (cases "visit it ?all s") auto
  from visit_props [OF v] have
    "prefix (map callArgs calls) ?all"
    "invokeAll it (map callArgs calls) s = (calls, s')"
    "\<forall>c\<in>set (butlast calls). returned c \<noteq> Some False"
    "(calls = [] \<or> returned (last calls) \<noteq> Some False) \<longrightarrow> map callArgs calls = ?all"
    by blast+
  then show ?thesis
    using symbolsOf_enumerates by simp
qed

lemma keys_simps:
  "forInKeys (Object NullProto [(''sap.m.Button'', a), (''sap.m.Input'', b)]) = [''sap.m.Button'', ''sap.m.Input'']"
  "forInKeys (Object NullProto [(''sap.m.ButtonType'', c)]) = [''sap.m.ButtonType'']"
  "forInKeys (Object NullProto [(''sap'', d)]) = [''sap'']"
  "forInKeys newMap = []"
  by (simp_all add: forInKeys_def isArrayIndex_def isDigit_def newMap_def)

theorem forEachSymbol_traversal_witness:
  "forEachSymbol exampleModel stopAtInput 0 =
     ([(JStr ''Button'', ''sap.m.Button'', None), (JStr ''Input'', ''sap.m.Input'', Some False)], 2) \<and>
   prefix [(JStr ''Button'', ''sap.m.Button''), (JStr ''Input'', ''sap.m.Input'')]
     (symbolsOf (classes exampleModel) @ symbolsOf (enums exampleModel) @
      symbolsOf (namespaces exampleModel) @ symbolsOf (interfaces exampleModel) @
      symbolsOf (typedefs exampleModel) @ symbolsOf (functions exampleModel)) \<and>
   invokeAll stopAtInput [(JStr ''Button'', ''sap.m.Button''), (JStr ''Input'', ''sap.m.Input'')] 0 =
     ([(JStr ''Button'', ''sap.m.Button'', None), (JStr ''Input'', ''sap.m.Input'', Some False)], 2)"
proof -
  have run: "forEachSymbol exampleModel stopAtInput 0 =
     ([(JStr ''Button'', ''sap.m.Button'', None), (JStr ''Input'', ''sap.m.Input'', Some False)], 2)"
    by (simp add: forEachSymbol_def exampleModel_def keys_simps stopAtInput_def getProp_def)
  show ?thesis
    using forEachSymbol_traversal [OF run] run by simp
qed

lemma map_of_setProp:
  "map_of (props (setProp m key v)) = (map_of (props m))(key \<mapsto> v)"
proof (cases "key \<in> fst ` set (props m)")
  case True
  have "map_of (map (\<lambda>(k, w). if k = key then (k, v) else (k, w)) ps) =
        (map_of ps)(key \<mapsto> v)" if "key \<in> fst ` set ps" for ps :: "(string \<times> jsval) list"
    using that
  proof (induction ps)
    case Nil
    then show ?case by simp
  next
    case (Cons a ps)
    obtain k w where a: "a = (k, w)" by (cases a)
    show ?case
    proof (cases "key \<in> fst ` set ps")
      case True
      with Cons.IH show ?thesis by (auto simp: a fun_upd_twist)
    next
      case False
      then have same: "map (\<lambda>(k, w). if k = key then (k, v) else (k, w)) ps = ps"
        by (induction ps) auto
      from False Cons.prems have "k = key" by (auto simp: a)
      then show ?thesis by (auto simp: a same fun_eq_iff)
    qed
  qed
  with True show ?thesis by (simp add: setProp_def)
next
  case False
  then have "map_of (props m) key = None"
    by (simp add: map_of_eq_None_iff)
  with False show ?thesis
    by (auto simp: setProp_def map_add_def fun_eq_iff split: option.splits)
qed

lemma proto_setProp [simp]: "proto (setProp m key v) = proto m"
  by (simp add: setProp_def)

lemma assignAll_props:
  "proto (assignAll m kvs) = proto m \<and>
   (key \<notin> fst ` set kvs \<longrightarrow> map_of (props (assignAll m kvs)) key = map_of (props m) key)"
  unfolding assignAll_def
  by (induction kvs arbitrary: m) (auto simp: map_of_setProp)

lemma findValueInMaps_absent:
  "\<forall>m\<in>set maps. getProp m key = JUndefined \<Longrightarrow> findValueInMaps has key maps = JUndefined"
  by (induction maps) auto

lemma lodashHas_own:
  "map_of (props m) key \<noteq> None \<Longrightarrow> lodashHas m key"
  by (simp add: lodashHas_def castPath_def isKey_def hasProperty_def)

text \<open>
  Claim C4. A map created by \<open>newMap\<close> has no property for any key, inherited
  ones such as \<^verbatim>\<open>constructor\<close> and \<^verbatim>\<open>toString\<close> included: reading the key yields
  \<^verbatim>\<open>undefined\<close>, \<^verbatim>\<open>findValueInMaps\<close> yields \<^verbatim>\<open>undefined\<close> whatever the test \<open>has\<close>
  answers, and the enumeration visits nothing. The same holds for a key that
  was not assigned after any sequence of assignments to the map; a key that was
  assigned is found with its value.
\<close>

theorem newMap_exposes_no_inherited_key:
  "getProp newMap key = JUndefined \<and> \<not> hasProperty newMap key \<and> forInKeys newMap = [] \<and>
   findValueInMaps has key (replicate n newMap) = JUndefined \<and>
   forEachSymbol emptyModel it s = ([], s) \<and>
   (key \<notin> fst ` set kvs \<longrightarrow>
      getProp (assignAll newMap kvs) key = JUndefined \<and>
      findValueInMaps has key [assignAll newMap kvs] = JUndefined \<and>
      key \<notin> set (forInKeys (assignAll newMap kvs))) \<and>
   findValueInMaps lodashHas key [setProp (assignAll newMap kvs) key v] = v"
proof -
  have fresh: "getProp newMap key = JUndefined"
    by (simp add: getProp_def newMap_def)
  have "findValueInMaps has key (replicate n newMap) = JUndefined"
    by (rule findValueInMaps_absent) (simp add: fresh)
  moreover have "forEachSymbol emptyModel it s = ([], s)"
    by (simp add: forEachSymbol_def emptyModel_def forInKeys_def newMap_def)
  moreover have "getProp (assignAll newMap kvs) key = JUndefined \<and>
      findValueInMaps has key [assignAll newMap kvs] = JUndefined \<and>
      key \<notin> set (forInKeys (assignAll newMap kvs))" if "key \<notin> fst ` set kvs"
  proof -
    from that assignAll_props [of newMap kvs key]
    have p: "proto (assignAll newMap kvs) = NullProto"
      and a: "map_of (props (assignAll newMap kvs)) key = None"
      by (simp_all add: newMap_def)
    then have g: "getProp (assignAll newMap kvs) key = JUndefined"
      by (simp add: getProp_def)
    moreover from a have "key \<notin> set (forInKeys (assignAll newMap kvs))"
      by (simp add: forInKeys_set map_of_eq_None_iff)
    ultimately show ?thesis by simp
  qed
  moreover have "findValueInMaps lodashHas key [setProp (assignAll newMap kvs) key v] = v"
    by (simp add: lodashHas_own map_of_setProp getProp_def)
  ultimately show ?thesis
    using fresh by (simp add: hasProperty_def newMap_def forInKeys_def)
qed

theorem newMap_exposes_no_inherited_key_witness:
  "getProp newMap ''constructor'' = JUndefined \<and>
   findValueInMaps lodashHas ''toString'' [assignAll newMap [(''sap.m.Button'', JStr ''Button'')]] = JUndefined \<and>
   ''toString'' \<notin> set (forInKeys (assignAll newMap [(''sap.m.Button'', JStr ''Button'')])) \<and>
   findValueInMaps lodashHas ''toString''
     [setProp (assignAll newMap [(''sap.m.Button'', JStr ''Button'')]) ''toString'' (JStr ''t'')] = JStr ''t''"
proof -
  have "getProp newMap ''constructor'' = JUndefined"
    using newMap_exposes_no_inherited_key
      [of "''constructor''" lodashHas 0 "\<lambda>v k s. (None, s)" "()" "[]" JNull]
    by blast
  moreover have "''toString'' \<notin> fst ` set [(''sap.m.Button'', JStr ''Button'')]"
    by simp
  then have
    "findValueInMaps lodashHas ''toString'' [assignAll newMap [(''sap.m.Button'', JStr ''Button'')]] = JUndefined \<and>
     ''toString'' \<notin> set (forInKeys (assignAll newMap [(''sap.m.Button'', JStr ''Button'')])) \<and>
     findValueInMaps lodashHas ''toString''
       [setProp (assignAll newMap [(''sap.m.Button'', JStr ''Button'')]) ''toString'' (JStr ''t'')] = JStr ''t''"
    using newMap_exposes_no_inherited_key
      [of "''toString''" lodashHas 0 "\<lambda>v k s. (None, s)" "()"
        "[(''sap.m.Button'', JStr ''Button'')]" "JStr ''t''"]
    by blast
  ultimately show ?thesis by blast
qed

text \<open>An object literal, by contrast, inherits the members of its prototype.\<close>

lemma objectLiteral_inherits:
  "getProp (Object ObjectProto []) ''constructor'' = JBuiltin ''constructor'' \<and>
   hasProperty (Object ObjectProto []) ''toString''"
  by (simp add: getProp_def hasProperty_def objectPrototypeKeys_def)

text \<open>
  Claim C3, at an input where the code departs from it. The first map has no
  entry \<^verbatim>\<open>sap.name\<close>, the second one has. lodash \<^verbatim>\<open>has\<close> follows the path
  \<^verbatim>\<open>sap\<close>, \<^verbatim>\<open>name\<close> into the node bound to \<^verbatim>\<open>sap\<close> in the first map and answers
  true, so the first map is read at the key \<^verbatim>\<open>sap.name\<close> and the result is
  \<^verbatim>\<open>undefined\<close>: the binding in the second map is never reached.
\<close>

theorem findValueInMaps_skips_later_binding:
  "findValueInMaps lodashHas ''sap.name'' [namespacesExample, functionsExample] = JUndefined \<and>
   map_of (props namespacesExample) ''sap.name'' = None \<and>
   map_of (props functionsExample) ''sap.name'' =
     Some (JObj ObjectProto [(''kind'', JStr ''UI5Function''), (''name'', JStr ''name'')]) \<and>
   findValueInMaps lodashHas ''sap.name'' [functionsExample] =
     JObj ObjectProto [(''kind'', JStr ''UI5Function''), (''name'', JStr ''name'')]"
  by (simp add: namespacesExample_def functionsExample_def lodashHas_def castPath_def isKey_def
        hasProperty_def stringToPath_def getProp_def reIsPlainProp_def isWordChar_def
        isSpecial_def emptyKeyAhead_def separator_def)

text \<open>
  For a key without a dot and without a bracket \<open>lodashHas\<close> is the test for an
  own entry, and wherever the test is the one for an own entry the first map
  that binds the key wins.
\<close>

lemma reIsDeepProp_chars:
  "reIsDeepProp key \<Longrightarrow> CHR ''.'' \<in> set key \<or> CHR ''['' \<in> set key"
  by (induction key) auto

lemma lodashHas_plain_key:
  "CHR ''.'' \<notin> set key \<Longrightarrow> CHR ''['' \<notin> set key \<Longrightarrow>
     lodashHas m key = (map_of (props m) key \<noteq> None)"
  using reIsDeepProp_chars [of key]
  by (auto simp: lodashHas_def castPath_def isKey_def)

lemma findValueInMaps_first_match:
  assumes "\<forall>m\<in>set maps. has m key = (map_of (props m) key \<noteq> None)"
  shows "findValueInMaps has key maps =
     (case find (\<lambda>m. map_of (props m) key \<noteq> None) maps of
        None \<Rightarrow> JUndefined
      | Some m \<Rightarrow> the (map_of (props m) key))"
  using assms
  by (induction maps) (auto simp: getProp_def)

section \<open>Properties of the language server\<close>

text \<open>
  Claim C8. A completion or hover request for an open document whose context is
  not a context (\<^verbatim>\<open>isContext\<close> is false) sends the notification
  \<^verbatim>\<open>UI5LanguageAssistant/context-error\<close> with that error value and returns the
  empty result: no completion item, no hover. The request of the context and the
  notification are all it does; no feature component is called.
\<close>

theorem context_error_ends_request:
  assumes "documentsGet srv (uri (textDocument p)) = Some document"
    and "getContext env (fsPath env (uri (textDocument p))) (modelCachePathOf srv) w = (c, w1)"
    and "\<not> isContext c"
  shows "\<exists>err. c = Inl err \<and>
     onCompletion env srv p w =
       ([],
        [GetContext (fsPath env (uri (textDocument p))) (modelCachePathOf srv) c,
         SendNotification ''UI5LanguageAssistant/context-error'' (ContextErrorPayload err)],
        w1) \<and>
     onHover env srv p w =
       (None,
        [GetContext (fsPath env (uri (textDocument p))) (modelCachePathOf srv) c,
         SendNotification ''UI5LanguageAssistant/context-error'' (ContextErrorPayload err)],
        w1)"
proof -
  from assms(3) obtain err where c: "c = Inl err"
    by (cases c) (simp_all add: isContext_def)
  have "onCompletion env srv p w =
       ([],
        [GetContext (fsPath env (uri (textDocument p))) (modelCachePathOf srv) c,
         SendNotification ''UI5LanguageAssistant/context-error'' (ContextErrorPayload err)],
        w1)"
    using assms(1,2) c by (simp add: onCompletion_def)
  moreover have "onHover env srv p w =
       (None,
        [GetContext (fsPath env (uri (textDocument p))) (modelCachePathOf srv) c,
         SendNotification ''UI5LanguageAssistant/context-error'' (ContextErrorPayload err)],
        w1)"
    using assms(1,2) c by (simp add: onHover_def)
  ultimately show ?thesis using c by blast
qed

lemma example_simps:
  "documentsGet exampleServer ''file:///app/Main.view.xml'' = Some mainView"
  "documentsGet exampleServer ''file:///tmp/Broken.view.xml'' = Some brokenView"
  "modelCachePathOf exampleServer = None"
  "fsPath exampleEnv ''file:///tmp/Broken.view.xml'' = ''/tmp/Broken.view.xml''"
  "fsPath exampleEnv ''file:///app/Main.view.xml'' = ''/app/Main.view.xml''"
  "fsPath exampleEnv ''file:///app/Detail.view.xml'' = ''/app/Detail.view.xml''"
  "getContext exampleEnv ''/tmp/Broken.view.xml'' None w = (Inl (JStr ''no project root''), Suc w)"
  "getContext exampleEnv ''/app/Main.view.xml'' None w = (Inr exampleContext, Suc w)"
  "getContext exampleEnv ''/app/Detail.view.xml'' None w = (Inr exampleContext, Suc w)"
  by (simp_all add: documentsGet_def exampleServer_def mainView_def brokenView_def
        modelCachePathOf_def exampleEnv_def endsWith_def)

theorem context_error_ends_request_witness:
  "onCompletion exampleEnv exampleServer atBroken 0 =
     ([],
      [GetContext ''/tmp/Broken.view.xml'' None (Inl (JStr ''no project root'')),
       SendNotification ''UI5LanguageAssistant/context-error''
         (ContextErrorPayload (JStr ''no project root''))],
      1) \<and>
   onHover exampleEnv exampleServer atBroken 0 =
     (None,
      [GetContext ''/tmp/Broken.view.xml'' None (Inl (JStr ''no project root'')),
       SendNotification ''UI5LanguageAssistant/context-error''
         (ContextErrorPayload (JStr ''no project root''))],
      1)"
proof -
  have "documentsGet exampleServer (uri (textDocument atBroken)) = Some brokenView"
    by (simp add: atBroken_def example_simps)
  moreover have "getContext exampleEnv (fsPath exampleEnv (uri (textDocument atBroken)))
      (modelCachePathOf exampleServer) 0 = (Inl (JStr ''no project root''), 1)"
    by (simp add: atBroken_def example_simps)
  moreover have "\<not> isContext (Inl (JStr ''no project root''))"
    by (simp add: isContext_def)
  ultimately show ?thesis
    using context_error_ends_request
      [of exampleServer atBroken brokenView exampleEnv 0 "Inl (JStr ''no project root'')" 1]
    by (simp add: atBroken_def example_simps)
qed

text \<open>
  Claim C9. In the handlers of completion, hover, content change and code
  action, once \<^verbatim>\<open>getContext\<close> has yielded a context, the notification
  \<^verbatim>\<open>UI5LanguageAssistant/ui5Model\<close> is sent with the CDN base URL, the framework,
  the version and the two flags of that context. It comes before the call that
  produces the result of the handler: the completion items, the hover response,
  the published diagnostics, the code actions.
\<close>

theorem ui5Model_notification_precedes_result:
  "(documentsGet srv (uri (textDocument p)) = Some document \<and>
    getContext env (fsPath env (uri (textDocument p))) (modelCachePathOf srv) w = (Inr ctx, w1) \<and>
    getCDNBaseUrl env (framework (yamlDetails ctx)) (version (ui5Model ctx)) w1 = (url, w2) \<longrightarrow>
      (\<exists>between settings.
         fst (snd (onCompletion env srv p w)) =
           [GetContext (fsPath env (uri (textDocument p))) (modelCachePathOf srv) (Inr ctx),
            GetCDNBaseUrl (framework (yamlDetails ctx)) (version (ui5Model ctx)) url,
            SendNotification ''UI5LanguageAssistant/ui5Model''
              (UI5ModelPayload url (framework (yamlDetails ctx)) (version (ui5Model ctx))
                 (isFallback (ui5Model ctx)) (isIncorrectVersion (ui5Model ctx)))] @
           between @
           [GetCompletionItems ctx p document settings (fst (onCompletion env srv p w))]) \<and>
      onHover env srv p w =
        (getHoverResponse env ctx p document,
         [GetContext (fsPath env (uri (textDocument p))) (modelCachePathOf srv) (Inr ctx),
          GetCDNBaseUrl (framework (yamlDetails ctx)) (version (ui5Model ctx)) url,
          SendNotification ''UI5LanguageAssistant/ui5Model''
            (UI5ModelPayload url (framework (yamlDetails ctx)) (version (ui5Model ctx))
               (isFallback (ui5Model ctx)) (isIncorrectVersion (ui5Model ctx))),
          GetHoverResponse ctx p document (getHoverResponse env ctx p document)],
         w2)) \<and>
   (manifestStateInitialized srv \<and> ui5yamlStateInitialized srv \<and> isXMLView env (uri changed) \<and>
    documentsGet srv (uri changed) = Some document \<and>
    getContext env (fsPath env (uri changed)) (modelCachePathOf srv) (awaitInitialized env w) =
      (Inr ctx, w1) \<and>
    getCDNBaseUrl env (framework (yamlDetails ctx)) (version (ui5Model ctx)) w1 = (url, w2) \<longrightarrow>
      onDidChangeContent env srv changed w =
        ([AwaitInitialized,
          GetContext (fsPath env (uri changed)) (modelCachePathOf srv) (Inr ctx),
          GetCDNBaseUrl (framework (yamlDetails ctx)) (version (ui5Model ctx)) url,
          SendNotification ''UI5LanguageAssistant/ui5Model''
            (UI5ModelPayload url (framework (yamlDetails ctx)) (version (ui5Model ctx))
               (isFallback (ui5Model ctx)) (isIncorrectVersion (ui5Model ctx))),
          GetXMLViewDiagnostics document ctx (getXMLViewDiagnostics env document ctx),
          SendDiagnostics (uri changed) (getXMLViewDiagnostics env document ctx)],
         w2)) \<and>
   (documentsGet srv (uri (textDocument params)) = Some document \<and>
    getContext env (fsPath env (uri (textDocument params))) (modelCachePathOf srv) w =
      (Inr ctx, w1) \<and>
    getCDNBaseUrl env (framework (yamlDetails ctx)) (version (ui5Model ctx)) w1 = (url, w2) \<longrightarrow>
      onCodeAction env srv params w =
        (Some (diagnosticToCodeActionFix env document (diagnostics params) ctx),
         [GetContext (fsPath env (uri (textDocument params))) (modelCachePathOf srv) (Inr ctx),
          GetCDNBaseUrl (framework (yamlDetails ctx)) (version (ui5Model ctx)) url,
          SendNotification ''UI5LanguageAssistant/ui5Model''
            (UI5ModelPayload url (framework (yamlDetails ctx)) (version (ui5Model ctx))
               (isFallback (ui5Model ctx)) (isIncorrectVersion (ui5Model ctx))),
          DiagnosticToCodeActionFix document (diagnostics params) ctx
            (diagnosticToCodeActionFix env document (diagnostics params) ctx)],
         w2))"
proof (intro conjI impI)
  assume h: "documentsGet srv (uri (textDocument p)) = Some document \<and>
    getContext env (fsPath env (uri (textDocument p))) (modelCachePathOf srv) w = (Inr ctx, w1) \<and>
    getCDNBaseUrl env (framework (yamlDetails ctx)) (version (ui5Model ctx)) w1 = (url, w2)"
  obtain updated w3 where u: "ensureDocumentSettingsUpdated env srv (uri document) w2 = (updated, w3)"
    by (cases "ensureDocumentSettingsUpdated env srv (uri document) w2")
  obtain settings w4 where g: "getSettingsForDocument env (uri document) w3 = (settings, w4)"
    by (cases "getSettingsForDocument env (uri document) w3")
  have "fst (snd (onCompletion env srv p w)) =
           [GetContext (fsPath env (uri (textDocument p))) (modelCachePathOf srv) (Inr ctx),
            GetCDNBaseUrl (framework (yamlDetails ctx)) (version (ui5Model ctx)) url,
            SendNotification ''UI5LanguageAssistant/ui5Model''
              (UI5ModelPayload url (framework (yamlDetails ctx)) (version (ui5Model ctx))
                 (isFallback (ui5Model ctx)) (isIncorrectVersion (ui5Model ctx)))] @
           (updated @ [GetSettingsForDocument (uri document) settings]) @
           [GetCompletionItems ctx p document settings (fst (onCompletion env srv p w))]"
    using h u g by (simp add: onCompletion_def Let_def)
  then show "\<exists>between settings.
         fst (snd (onCompletion env srv p w)) =
           [GetContext (fsPath env (uri (textDocument p))) (modelCachePathOf srv) (Inr ctx),
            GetCDNBaseUrl (framework (yamlDetails ctx)) (version (ui5Model ctx)) url,
            SendNotification ''UI5LanguageAssistant/ui5Model''
              (UI5ModelPayload url (framework (yamlDetails ctx)) (version (ui5Model ctx))
                 (isFallback (ui5Model ctx)) (isIncorrectVersion (ui5Model ctx)))] @
           between @
           [GetCompletionItems ctx p document settings (fst (onCompletion env srv p w))]"
    by blast
  from h show "onHover env srv p w =
        (getHoverResponse env ctx p document,
         [GetContext (fsPath env (uri (textDocument p))) (modelCachePathOf srv) (Inr ctx),
          GetCDNBaseUrl (framework (yamlDetails ctx)) (version (ui5Model ctx)) url,
          SendNotification ''UI5LanguageAssistant/ui5Model''
            (UI5ModelPayload url (framework (yamlDetails ctx)) (version (ui5Model ctx))
               (isFallback (ui5Model ctx)) (isIncorrectVersion (ui5Model ctx))),
          GetHoverResponse ctx p document (getHoverResponse env ctx p document)],
         w2)"
    by (simp add: onHover_def Let_def)
next
  assume "manifestStateInitialized srv \<and> ui5yamlStateInitialized srv \<and> isXMLView env (uri changed) \<and>
    documentsGet srv (uri changed) = Some document \<and>
    getContext env (fsPath env (uri changed)) (modelCachePathOf srv) (awaitInitialized env w) =
      (Inr ctx, w1) \<and>
    getCDNBaseUrl env (framework (yamlDetails ctx)) (version (ui5Model ctx)) w1 = (url, w2)"
  then show "onDidChangeContent env srv changed w =
        ([AwaitInitialized,
          GetContext (fsPath env (uri changed)) (modelCachePathOf srv) (Inr ctx),
          GetCDNBaseUrl (framework (yamlDetails ctx)) (version (ui5Model ctx)) url,
          SendNotification ''UI5LanguageAssistant/ui5Model''
            (UI5ModelPayload url (framework (yamlDetails ctx)) (version (ui5Model ctx))
               (isFallback (ui5Model ctx)) (isIncorrectVersion (ui5Model ctx))),
          GetXMLViewDiagnostics document ctx (getXMLViewDiagnostics env document ctx),
          SendDiagnostics (uri changed) (getXMLViewDiagnostics env document ctx)],
         w2)"
    by (simp add: onDidChangeContent_def Let_def)
next
  assume "documentsGet srv (uri (textDocument params)) = Some document \<and>
    getContext env (fsPath env (uri (textDocument params))) (modelCachePathOf srv) w =
      (Inr ctx, w1) \<and>
    getCDNBaseUrl env (framework (yamlDetails ctx)) (version (ui5Model ctx)) w1 = (url, w2)"
  then show "onCodeAction env srv params w =
        (Some (diagnosticToCodeActionFix env document (diagnostics params) ctx),
         [GetContext (fsPath env (uri (textDocument params))) (modelCachePathOf srv) (Inr ctx),
          GetCDNBaseUrl (framework (yamlDetails ctx)) (version (ui5Model ctx)) url,
          SendNotification ''UI5LanguageAssistant/ui5Model''
            (UI5ModelPayload url (framework (yamlDetails ctx)) (version (ui5Model ctx))
               (isFallback (ui5Model ctx)) (isIncorrectVersion (ui5Model ctx))),
          DiagnosticToCodeActionFix document (diagnostics params) ctx
            (diagnosticToCodeActionFix env document (diagnostics params) ctx)],
         w2)"
    by (simp add: onCodeAction_def Let_def)
qed

lemma exampleContext_simps:
  "framework (yamlDetails exampleContext) = ''SAPUI5''"
  "version (ui5Model exampleContext) = Some ''1.71.1''"
  "isFallback (ui5Model exampleContext) = False"
  "isIncorrectVersion (ui5Model exampleContext) = False"
  "getCDNBaseUrl exampleEnv fw ver w = (''https://ui5.sap.com/'', w)"
  "isXMLView exampleEnv ''file:///app/Main.view.xml''"
  "awaitInitialized exampleEnv w = w"
  "manifestStateInitialized exampleServer" "ui5yamlStateInitialized exampleServer"
  "getHoverResponse exampleEnv ctx p d = Some (JStr ''sap.m.Button'')"
  "getXMLViewDiagnostics exampleEnv d ctx = []"
  "diagnosticToCodeActionFix exampleEnv d ds ctx = []"
  by (simp_all add: exampleContext_def exampleModel_def exampleEnv_def exampleServer_def
        endsWith_def)

theorem ui5Model_notification_precedes_result_witness:
  "onCompletion exampleEnv exampleServer atMain 0 =
     ([JStr ''Button''],
      [GetContext ''/app/Main.view.xml'' None (Inr exampleContext),
       GetCDNBaseUrl ''SAPUI5'' (Some ''1.71.1'') ''https://ui5.sap.com/'',
       SendNotification ''UI5LanguageAssistant/ui5Model''
         (UI5ModelPayload ''https://ui5.sap.com/'' ''SAPUI5'' (Some ''1.71.1'') False False),
       GetSettingsForDocument ''file:///app/Main.view.xml'' JNull,
       GetCompletionItems exampleContext atMain mainView JNull [JStr ''Button'']],
      1) \<and>
   onHover exampleEnv exampleServer atMain 0 =
     (Some (JStr ''sap.m.Button''),
      [GetContext ''/app/Main.view.xml'' None (Inr exampleContext),
       GetCDNBaseUrl ''SAPUI5'' (Some ''1.71.1'') ''https://ui5.sap.com/'',
       SendNotification ''UI5LanguageAssistant/ui5Model''
         (UI5ModelPayload ''https://ui5.sap.com/'' ''SAPUI5'' (Some ''1.71.1'') False False),
       GetHoverResponse exampleContext atMain mainView (Some (JStr ''sap.m.Button''))],
      1) \<and>
   onDidChangeContent exampleEnv exampleServer mainView 0 =
     ([AwaitInitialized,
       GetContext ''/app/Main.view.xml'' None (Inr exampleContext),
       GetCDNBaseUrl ''SAPUI5'' (Some ''1.71.1'') ''https://ui5.sap.com/'',
       SendNotification ''UI5LanguageAssistant/ui5Model''
         (UI5ModelPayload ''https://ui5.sap.com/'' ''SAPUI5'' (Some ''1.71.1'') False False),
       GetXMLViewDiagnostics mainView exampleContext [],
       SendDiagnostics ''file:///app/Main.view.xml'' []],
      1) \<and>
   onCodeAction exampleEnv exampleServer fixMain 0 =
     (Some [],
      [GetContext ''/app/Main.view.xml'' None (Inr exampleContext),
       GetCDNBaseUrl ''SAPUI5'' (Some ''1.71.1'') ''https://ui5.sap.com/'',
       SendNotification ''UI5LanguageAssistant/ui5Model''
         (UI5ModelPayload ''https://ui5.sap.com/'' ''SAPUI5'' (Some ''1.71.1'') False False),
       DiagnosticToCodeActionFix mainView [JStr ''missing id''] exampleContext []],
      1)"
proof -
  have uris: "uri (textDocument atMain) = ''file:///app/Main.view.xml''"
    "uri (textDocument fixMain) = ''file:///app/Main.view.xml''"
    "uri mainView = ''file:///app/Main.view.xml''"
    "diagnostics fixMain = [JStr ''missing id'']"
    by (simp_all add: atMain_def fixMain_def mainView_def)
  have completion: "onCompletion exampleEnv exampleServer atMain 0 =
     ([JStr ''Button''],
      [GetContext ''/app/Main.view.xml'' None (Inr exampleContext),
       GetCDNBaseUrl ''SAPUI5'' (Some ''1.71.1'') ''https://ui5.sap.com/'',
       SendNotification ''UI5LanguageAssistant/ui5Model''
         (UI5ModelPayload ''https://ui5.sap.com/'' ''SAPUI5'' (Some ''1.71.1'') False False),
       GetSettingsForDocument ''file:///app/Main.view.xml'' JNull,
       GetCompletionItems exampleContext atMain mainView JNull [JStr ''Button'']],
      1)"
    by (simp add: onCompletion_def Let_def uris example_simps exampleContext_simps
          ensureDocumentSettingsUpdated_def)
       (simp add: exampleEnv_def exampleServer_def)
  show ?thesis
    using ui5Model_notification_precedes_result
      [where srv = exampleServer and env = exampleEnv and p = atMain and document = mainView
         and w = 0 and ctx = exampleContext and ?w1.0 = 1 and url = "''https://ui5.sap.com/''"
         and ?w2.0 = 1 and changed = mainView and params = fixMain]
    by (simp add: uris example_simps exampleContext_simps completion)
qed

text \<open>
  The pass over the open documents, at the first document whose context is an
  error.
\<close>

lemma validateLoop_context_error:
  assumes "validateLoop env cachePath docs w = (tr, w')"
    and "GetContext path cp (Inl err) \<in> set tr"
  shows "\<exists>k<length docs.
     path = fsPath env (uri (docs ! k)) \<and>
     notifications tr = [(''UI5LanguageAssistant/context-error'', ContextErrorPayload err)] \<and>
     last tr = SendNotification ''UI5LanguageAssistant/context-error'' (ContextErrorPayload err) \<and>
     requested tr = map (\<lambda>d. fsPath env (uri d)) (take (Suc k) docs) \<and>
     diagnosed tr = take k docs \<and>
     published tr = map uri (take k docs)"
  using assms
proof (induction docs arbitrary: w tr w')
  case Nil
  then show ?case by simp
next
  case (Cons d docs)
  obtain c w1 where c: "getContext env (fsPath env (uri d)) cachePath w = (c, w1)"
    by (cases "getContext env (fsPath env (uri d)) cachePath w")
  show ?case
  proof (cases c)
    case (Inl e)
    with Cons.prems c have "tr = [GetContext (fsPath env (uri d)) cachePath (Inl e),
        SendNotification ''UI5LanguageAssistant/context-error'' (ContextErrorPayload e)]"
      by simp
    with Cons.prems(2) show ?thesis
      by (intro exI [of _ 0]) auto
  next
    case (Inr ctx)
    obtain later w2 where l: "validateLoop env cachePath docs w1 = (later, w2)"
      by (cases "validateLoop env cachePath docs w1")
    with Cons.prems c Inr have tr: "tr = [GetContext (fsPath env (uri d)) cachePath (Inr ctx),
        GetXMLViewDiagnostics d ctx (getXMLViewDiagnostics env d ctx),
        SendDiagnostics (uri d) (getXMLViewDiagnostics env d ctx)] @ later"
      by (simp add: Let_def)
    with Cons.prems(2) have "GetContext path cp (Inl err) \<in> set later"
      by auto
    from Cons.IH [OF l this] obtain k where k: "k < length docs"
      "path = fsPath env (uri (docs ! k))"
      "notifications later = [(''UI5LanguageAssistant/context-error'', ContextErrorPayload err)]"
      "last later = SendNotification ''UI5LanguageAssistant/context-error'' (ContextErrorPayload err)"
      "requested later = map (\<lambda>d. fsPath env (uri d)) (take (Suc k) docs)"
      "diagnosed later = take k docs"
      "published later = map uri (take k docs)"
      by blast
    from k(3) have "later \<noteq> []" by auto
    with k tr show ?thesis
      by (intro exI [of _ "Suc k"]) simp
  qed
qed

text \<open>
  Claim C10. When, during one pass of \<^verbatim>\<open>validateOpenDocuments\<close>, the context
  requested for a document is a context error, that document is some open
  document number \<open>k\<close>; the pass sends exactly one notification, the
  \<^verbatim>\<open>UI5LanguageAssistant/context-error\<close> with that error, and it is the last
  thing the pass does. Diagnostics were computed and published for the \<open>k\<close>
  documents before it and for no other: not for document \<open>k\<close>, not for a later
  one, whose context is not even requested.
\<close>

theorem context_error_ends_pass:
  assumes "validateOpenDocuments env srv changes w = (tr, w')"
    and "GetContext path cachePath (Inl err) \<in> set tr"
  shows "\<exists>k<length (documents srv).
     path = fsPath env (uri (documents srv ! k)) \<and>
     notifications tr = [(''UI5LanguageAssistant/context-error'', ContextErrorPayload err)] \<and>
     last tr = SendNotification ''UI5LanguageAssistant/context-error'' (ContextErrorPayload err) \<and>
     requested tr = map (\<lambda>d. fsPath env (uri d)) (take (Suc k) (documents srv)) \<and>
     diagnosed tr = take k (documents srv) \<and>
     published tr = map uri (take k (documents srv))"
proof (cases "find (supported env) changes")
  case None
  with assms show ?thesis by (simp add: validateOpenDocuments_def)
next
  case (Some found)
  with assms(1) have "validateLoop env (modelCachePathOf srv) (documents srv) w = (tr, w')"
    by (simp add: validateOpenDocuments_def)
  from validateLoop_context_error [OF this assms(2)] show ?thesis .
qed

lemma supported_manifestChange: "supported exampleEnv manifestChange"
  by (simp add: supported_def exampleEnv_def manifestChange_def supportedDocs_def endsWith_def)

lemma example_pass:
  "validateOpenDocuments exampleEnv exampleServer [manifestChange] 0 =
     ([GetContext ''/app/Main.view.xml'' None (Inr exampleContext),
       GetXMLViewDiagnostics mainView exampleContext [],
       SendDiagnostics ''file:///app/Main.view.xml'' [],
       GetContext ''/tmp/Broken.view.xml'' None (Inl (JStr ''no project root'')),
       SendNotification ''UI5LanguageAssistant/context-error''
         (ContextErrorPayload (JStr ''no project root''))], 2)"
proof -
  have docs: "documents exampleServer = [mainView, brokenView, detailView]"
    "uri mainView = ''file:///app/Main.view.xml''"
    "uri brokenView = ''file:///tmp/Broken.view.xml''"
    by (simp_all add: exampleServer_def mainView_def brokenView_def)
  show ?thesis
    by (simp add: validateOpenDocuments_def supported_manifestChange docs example_simps
          exampleContext_simps Let_def)
qed

theorem context_error_ends_pass_witness:
  "notifications (fst (validateOpenDocuments exampleEnv exampleServer [manifestChange] 0)) =
     [(''UI5LanguageAssistant/context-error'', ContextErrorPayload (JStr ''no project root''))] \<and>
   published (fst (validateOpenDocuments exampleEnv exampleServer [manifestChange] 0)) =
     [''file:///app/Main.view.xml'']"
proof -
  have "GetContext ''/tmp/Broken.view.xml'' None (Inl (JStr ''no project root''))
      \<in> set (fst (validateOpenDocuments exampleEnv exampleServer [manifestChange] 0))"
    by (simp add: example_pass)
  from context_error_ends_pass [OF surjective_pairing this]
  obtain k where k: "k < length (documents exampleServer)"
    "''/tmp/Broken.view.xml'' = fsPath exampleEnv (uri (documents exampleServer ! k))"
    "notifications (fst (validateOpenDocuments exampleEnv exampleServer [manifestChange] 0)) =
       [(''UI5LanguageAssistant/context-error'', ContextErrorPayload (JStr ''no project root''))]"
    "published (fst (validateOpenDocuments exampleEnv exampleServer [manifestChange] 0)) =
       map uri (take k (documents exampleServer))"
    by blast
  have docs: "documents exampleServer = [mainView, brokenView, detailView]"
    by (simp add: exampleServer_def)
  from k(1) docs consider "k = 0" | "k = 1" | "k = 2"
    by (auto simp: less_Suc_eq numeral_3_eq_3)
  then have "k = 1"
    using k(2) docs
    by cases (simp_all add: mainView_def detailView_def exampleEnv_def)
  with k(3,4) docs show ?thesis
    by (simp add: mainView_def)
qed

subsection \<open>Watched files\<close>

lemma endsWith_last:
  assumes "endsWith s t" and "t \<noteq> []"
  shows "last s = last t"
proof -
  from assms(1) obtain p where "s = p @ t"
    by (auto simp: endsWith_suffix suffix_def)
  with assms(2) show ?thesis by simp
qed

lemma cds_is_no_other:
  assumes "endsWith u ''.cds''"
  shows "\<not> endsWith u ''manifest.json'' \<and> \<not> endsWith u ''ui5.yaml''"
proof -
  from assms have "last u = CHR ''s''"
    by (auto dest: endsWith_last)
  then show ?thesis
    by (auto dest!: endsWith_last)
qed

lemma forEach_Cons: "forEach (x # xs) f acc = forEach xs f (f x acc)"
  by (simp add: forEach_def)

lemma forEach_callback:
  assumes "forEach changes callback (calls0, cds0) = (calls, cds)"
  shows "cds = cds0 @ filter (\<lambda>change. endsWith (uri change) ''.cds'') changes \<and>
         (\<forall>r\<in>set calls. r \<in> set calls0 \<or> (\<forall>l. r \<noteq> ReactOnCdsFileChange l))"
  using assms
proof (induction changes arbitrary: calls0 cds0)
  case Nil
  then show ?case by (simp add: forEach_def)
next
  case (Cons change changes)
  obtain calls1 cds1 where step: "callback change (calls0, cds0) = (calls1, cds1)"
    by (cases "callback change (calls0, cds0)")
  with Cons.prems have "forEach changes callback (calls1, cds1) = (calls, cds)"
    by (simp add: forEach_Cons)
  from Cons.IH [OF this] have ih:
    "cds = cds1 @ filter (\<lambda>change. endsWith (uri change) ''.cds'') changes"
    "\<forall>r\<in>set calls. r \<in> set calls1 \<or> (\<forall>l. r \<noteq> ReactOnCdsFileChange l)"
    by blast+
  have one: "cds1 = cds0 @ (if endsWith (uri change) ''.cds'' then [change] else [])"
    and two: "\<forall>r\<in>set calls1. r \<in> set calls0 \<or> (\<forall>l. r \<noteq> ReactOnCdsFileChange l)"
    using step cds_is_no_other [of "uri change"]
    by (auto simp: callback_def Let_def split: if_splits)
  from ih one two show ?case
    by auto
qed

lemma cdsCalls_append: "cdsCalls (xs @ ys) = cdsCalls xs @ cdsCalls ys"
  by (induction xs rule: cdsCalls.induct) simp_all

lemma cdsCalls_started:
  "cdsCalls (map (\<lambda>(i, r). Started i r) (enumerate n rs)) =
     concat (map (\<lambda>r. case r of ReactOnCdsFileChange l \<Rightarrow> [l] | _ \<Rightarrow> []) rs)"
proof (induction rs arbitrary: n)
  case Nil
  then show ?case by simp
next
  case (Cons r rs)
  then show ?case by (cases r) simp_all
qed

lemma cdsCalls_step: "cdsCalls (trace (step changes c d)) = cdsCalls (trace c)"
  by (cases d) (simp_all add: cdsCalls_append split: option.splits outcome.splits)

lemma cdsCalls_schedule:
  "cdsCalls (trace (foldl (step changes) c schedule)) = cdsCalls (trace c)"
  by (induction schedule arbitrary: c) (simp_all add: cdsCalls_step)

lemma firstTurn_cds:
  "concat (map (\<lambda>r. case r of ReactOnCdsFileChange l \<Rightarrow> [l] | _ \<Rightarrow> []) (firstTurn changes)) =
     [filter (\<lambda>change. endsWith (uri change) ''.cds'') changes]"
proof -
  obtain calls cds where run: "forEach changes callback ([], []) = (calls, cds)"
    by (cases "forEach changes callback ([], [])")
  from forEach_callback [OF run] have
    cds: "cds = filter (\<lambda>change. endsWith (uri change) ''.cds'') changes"
    and calls: "\<forall>r\<in>set calls. \<forall>l. r \<noteq> ReactOnCdsFileChange l"
    by simp_all
  from calls have "concat (map (\<lambda>r. case r of ReactOnCdsFileChange l \<Rightarrow> [l] | _ \<Rightarrow> []) calls) = []"
    by (induction calls) (auto split: reaction.splits)
  with run cds show ?thesis
    by (simp add: firstTurn_def)
qed

text \<open>
  Claim C7. Whatever the burst of changes and whatever the event loop decides
  afterwards, \<^verbatim>\<open>reactOnCdsFileChange\<close> is called exactly once, with the changes
  of the burst whose path ends in \<^verbatim>\<open>.cds\<close>, in the order of the burst. It is
  called once with the empty list when there is none, and never once for each
  file.
\<close>

theorem cds_changes_batched:
  "cdsCalls (trace (onDidChangeWatchedFiles changes schedule)) =
     [filter (\<lambda>change. endsWith (uri change) ''.cds'') changes]"
  by (simp add: onDidChangeWatchedFiles_def cdsCalls_schedule initial_def cdsCalls_started
        firstTurn_cds)

theorem cds_changes_batched_witness:
  "cdsCalls (trace (onDidChangeWatchedFiles [cdsChange, manifestChange, schemaChange]
       [Settle 0 Rejected, Settle 1 Resolved, Resume])) = [[cdsChange, schemaChange]] \<and>
   cdsCalls (trace (onDidChangeWatchedFiles [manifestChange] [])) = [[]]"
  using cds_changes_batched [of "[cdsChange, manifestChange, schemaChange]"
      "[Settle 0 Rejected, Settle 1 Resolved, Resume]"]
    cds_changes_batched [of "[manifestChange]" "[]"]
  by (simp add: cdsChange_def manifestChange_def schemaChange_def endsWith_def)

text \<open>
  Claim C5, at an input where the code departs from it. The burst is one change
  of a \<^verbatim>\<open>manifest.json\<close>. The callback of \<^verbatim>\<open>forEach\<close> starts
  \<^verbatim>\<open>reactOnManifestChange\<close>, and \<^verbatim>\<open>forEach\<close> drops the promise of the callback.
  The handler awaits \<^verbatim>\<open>reactOnCdsFileChange\<close> only: when that one resolves first,
  \<^verbatim>\<open>validateOpenDocuments\<close> is called while the reaction to the manifest is
  still pending.
\<close>

theorem validation_overtakes_manifest_reaction:
  "trace (onDidChangeWatchedFiles [manifestChange] [Settle 1 Resolved, Resume]) =
     [Started 0 (ReactOnManifestChange ''file:///app/manifest.json'' Changed),
      Started 1 (ReactOnCdsFileChange []),
      Settled 1 Resolved,
      ValidateOpenDocuments [manifestChange]] \<and>
   settled (onDidChangeWatchedFiles [manifestChange] [Settle 1 Resolved, Resume]) ! 0 = None"
  by (simp add: onDidChangeWatchedFiles_def initial_def firstTurn_def forEach_def callback_def
        manifestChange_def endsWith_def awaited_def enumerate_eq_zip)

text \<open>
  The reaction the handler awaits is another matter: in every run the call of
  \<^verbatim>\<open>validateOpenDocuments\<close> comes after \<^verbatim>\<open>reactOnCdsFileChange\<close>, the last reaction
  started, has resolved.
\<close>

lemma snoc_eq_split:
  "xs @ [e] = pre @ v # post \<longleftrightarrow>
     (post = [] \<and> xs = pre \<and> e = v) \<or> (\<exists>post'. post = post' @ [e] \<and> xs = pre @ v # post')"
proof (cases post rule: rev_cases)
  case Nil
  then show ?thesis by auto
next
  case (snoc post' e')
  have "xs @ [e] = (pre @ v # post') @ [e'] \<longleftrightarrow> xs = pre @ v # post' \<and> e = e'"
    by (rule append1_eq_conv)
  with snoc show ?thesis by auto
qed

lemma step_order:
  assumes len: "length (settled c) = length (reactions c)" and ne: "reactions c \<noteq> []"
    and rec: "\<forall>i<length (settled c). \<forall>out. settled c ! i = Some out \<longrightarrow> Settled i out \<in> set (trace c)"
    and ord: "\<forall>pre post. trace c = pre @ ValidateOpenDocuments changes # post \<longrightarrow>
           Settled (awaited c) Resolved \<in> set pre"
  shows "length (settled (step changes c d)) = length (reactions (step changes c d)) \<and>
     reactions (step changes c d) \<noteq> [] \<and>
     (\<forall>i<length (settled (step changes c d)). \<forall>out.
        settled (step changes c d) ! i = Some out \<longrightarrow> Settled i out \<in> set (trace (step changes c d))) \<and>
     (\<forall>pre post. trace (step changes c d) = pre @ ValidateOpenDocuments changes # post \<longrightarrow>
        Settled (awaited (step changes c d)) Resolved \<in> set pre)"
proof (cases d)
  case (Settle i out)
  show ?thesis
  proof (cases "i < length (settled c) \<and> settled c ! i = None")
    case True
    with len ne rec ord show ?thesis
      by (auto simp: Settle awaited_def nth_list_update snoc_eq_split)
  next
    case False
    then have "step changes c d = c"
      by (auto simp: Settle)
    with len ne rec ord show ?thesis
      by simp
  qed
next
  case Resume
  from len ne have aw: "awaited c < length (settled c)"
    by (cases "reactions c") (simp_all add: awaited_def)
  show ?thesis
  proof (cases "finished c")
    case True
    then have "step changes c d = c"
      by (simp add: Resume)
    with len ne rec ord show ?thesis
      by simp
  next
    case False
    show ?thesis
    proof (cases "settled c ! awaited c")
      case None
      with False have "step changes c d = c"
        by (simp add: Resume)
      with len ne rec ord show ?thesis
        by simp
    next
      case (Some out)
      with aw rec have "Settled (awaited c) out \<in> set (trace c)"
        by blast
      with False Some len ne rec ord show ?thesis
        by (cases out) (auto simp: Resume awaited_def snoc_eq_split)
    qed
  qed
qed

lemma schedule_order:
  assumes "length (settled c) = length (reactions c)" and "reactions c \<noteq> []"
    and "\<forall>i<length (settled c). \<forall>out. settled c ! i = Some out \<longrightarrow> Settled i out \<in> set (trace c)"
    and "\<forall>pre post. trace c = pre @ ValidateOpenDocuments changes # post \<longrightarrow>
           Settled (awaited c) Resolved \<in> set pre"
  shows "\<forall>pre post. trace (foldl (step changes) c schedule) = pre @ ValidateOpenDocuments changes # post \<longrightarrow>
           Settled (awaited (foldl (step changes) c schedule)) Resolved \<in> set pre"
  using assms
proof (induction schedule arbitrary: c)
  case Nil
  then show ?case by simp
next
  case (Cons d schedule)
  from step_order [OF Cons.prems, of d]
  show ?case
    by (simp add: Cons.IH)
qed

lemma initial_started:
  "e \<in> set (trace (initial changes)) \<Longrightarrow> \<exists>i r. e = Started i r"
  by (auto simp: initial_def)

lemma validation_awaits_cds_reaction:
  assumes "trace (onDidChangeWatchedFiles changes schedule) =
             pre @ ValidateOpenDocuments changes # post"
  shows "Settled (length (firstTurn changes) - 1) Resolved \<in> set pre"
proof -
  have aw: "awaited (foldl (step changes) c schedule) = awaited c" for c
  proof (induction schedule arbitrary: c)
    case Nil
    then show ?case by simp
  next
    case (Cons d schedule)
    have "awaited (step changes c d) = awaited c"
      by (cases d) (auto simp: awaited_def split: option.splits outcome.splits)
    with Cons show ?case by simp
  qed
  have "\<forall>pre post. trace (initial changes) = pre @ ValidateOpenDocuments changes # post \<longrightarrow>
           Settled (awaited (initial changes)) Resolved \<in> set pre"
  proof (intro allI impI)
    fix pre post
    assume "trace (initial changes) = pre @ ValidateOpenDocuments changes # post"
    then have "ValidateOpenDocuments changes \<in> set (trace (initial changes))"
      by simp
    then show "Settled (awaited (initial changes)) Resolved \<in> set pre"
      by (auto dest: initial_started)
  qed
  then have "\<forall>pre post. trace (foldl (step changes) (initial changes) schedule) =
        pre @ ValidateOpenDocuments changes # post \<longrightarrow>
      Settled (awaited (foldl (step changes) (initial changes) schedule)) Resolved \<in> set pre"
    by (intro schedule_order) (simp_all add: initial_def firstTurn_def split: prod.splits)
  with assms show ?thesis
    by (simp add: onDidChangeWatchedFiles_def aw) (simp add: awaited_def initial_def)
qed





end
